theory Spec2Isabelle
  imports Main "HOL-Library.AList"
begin

section \<open>The OpenTSDB handler of Diamond (diamond/handler/tsdb.py)\<close>

text \<open>
  The development embeds the two classes of \<^verbatim>\<open>src/diamond/handler/tsdb.py\<close>:
  \<^verbatim>\<open>MetricWrapper\<close>, which derives tags from the dotted path of a metric, and
  \<^verbatim>\<open>TSDBHandler\<close>, which renders a metric as a line and sends it over a socket.
  Python exceptions are values of the type \<open>exn\<close>; a function that can raise returns
  \<open>exn + 'a\<close> with the exception on the left.
\<close>

subsection \<open>Exceptions\<close>

datatype exn =
    IndexError
  | KeyError string
  | ValueError
  | SocketError
  | Exception string

definition exn_bind :: "exn + 'a \<Rightarrow> ('a \<Rightarrow> exn + 'b) \<Rightarrow> exn + 'b" where
  "exn_bind r f = (case r of Inl e \<Rightarrow> Inl e | Inr x \<Rightarrow> f x)"

text \<open>Python's \<^verbatim>\<open>xs[i]\<close> for an index \<open>i \<ge> 0\<close>: IndexError out of range.\<close>

definition idx :: "'a list \<Rightarrow> nat \<Rightarrow> exn + 'a" where
  "idx xs i = (if i < length xs then Inr (xs ! i) else Inl IndexError)"

subsection \<open>Python string operations\<close>

text \<open>
  \<^verbatim>\<open>s.split(sep)\<close> for a separator of one character: the result always has at least
  one element, and \<^verbatim>\<open>"".split(".")\<close> is \<^verbatim>\<open>[""]\<close>.
\<close>

fun split_on :: "char \<Rightarrow> string \<Rightarrow> string list" where
  "split_on sep [] = [[]]"
| "split_on sep (c # cs) =
     (if c = sep then [] # split_on sep cs
      else (case split_on sep cs of
              [] \<Rightarrow> [[c]]
            | w # ws \<Rightarrow> (c # w) # ws))"

text \<open>\<^verbatim>\<open>sep.join(xs)\<close>.\<close>

fun join :: "string \<Rightarrow> string list \<Rightarrow> string" where
  "join sep [] = []"
| "join sep [x] = x"
| "join sep (x # y # ys) = x @ sep @ join sep (y # ys)"

text \<open>
  \<^verbatim>\<open>s.replace(old, new)\<close>: the occurrences of \<open>old\<close> are found from left to
  right and do not overlap. For an empty \<open>old\<close> Python puts \<open>new\<close> before every
  character and at the end.
\<close>

function replace_from :: "string \<Rightarrow> string \<Rightarrow> string \<Rightarrow> string" where
  "replace_from [] old new = []"
| "replace_from (c # cs) old new =
     (if old \<noteq> [] \<and> take (length old) (c # cs) = old
      then new @ replace_from (drop (length old) (c # cs)) old new
      else c # replace_from cs old new)"
  by pat_completeness auto
termination
  by (relation "measure (\<lambda>(s, old, new). length s)") (auto simp: neq_Nil_conv)

definition replace :: "string \<Rightarrow> string \<Rightarrow> string \<Rightarrow> string" where
  "replace s old new =
     (if old = [] then new @ concat (map (\<lambda>c. c # new) s) else replace_from s old new)"

text \<open>\<^verbatim>\<open>s.count(c)\<close> for one character and \<^verbatim>\<open>s.startswith(c)\<close>.\<close>

definition count_char :: "string \<Rightarrow> char \<Rightarrow> nat" where
  "count_char s c = count_list s c"

definition startswith :: "string \<Rightarrow> string \<Rightarrow> bool" where
  "startswith s p = (take (length p) s = p)"

subsection \<open>The class Metric\<close>

text \<open>
  The fields that \<^verbatim>\<open>MetricWrapper.__init__\<close> copies from its delegate. Numbers are
  integers here: floating-point values are outside the model.
\<close>

record Metric =
  path :: string
  "value" :: int
  host :: "string option"
  raw_value :: int
  timestamp :: int
  precision :: nat
  ttl :: "int option"
  metric_type :: string

text \<open>
  The base class \<^verbatim>\<open>Metric\<close> (module \<^verbatim>\<open>diamond.metric\<close>) is not among the sources;
  \<^verbatim>\<open>tsdb.py\<close> calls its methods \<^verbatim>\<open>getCollectorPath\<close> and \<^verbatim>\<open>getMetricPath\<close>. The
  spec (sections 3 and 6) gives a metric a dotted path whose segments are joined by
  \<open>.\<close>, an accessor for the collector identifier, and an accessor for the metric path,
  the suffix of the path after the collector prefix. The two definitions below read
  both from the path, laid out as \<^verbatim>\<open><prefix>.<host>.<collector>.<metric path>\<close>. They
  are functions of the current value of the field \<open>path\<close>, so on a wrapper they see
  the rewritten path.
\<close>

text \<open>
  Modelled from the spec: \<^verbatim>\<open>Metric.getCollectorPath\<close>, absent from the sources. The
  collector identifier is segment 2 of the path; a path with fewer than three segments
  has none (IndexError).
\<close>

definition getCollectorPath :: "'a Metric_scheme \<Rightarrow> exn + string" where
  "getCollectorPath m = idx (split_on CHR ''.'' (path m)) 2"

text \<open>
  Modelled from the spec: \<^verbatim>\<open>Metric.getMetricPath\<close>, absent from the sources. The metric
  path is what follows the collector segment: the segments from index 3 on, joined by
  \<open>.\<close> again.
\<close>

definition getMetricPath :: "'a Metric_scheme \<Rightarrow> string" where
  "getMetricPath m = join ''.'' (drop 3 (split_on CHR ''.'' (path m)))"

subsection \<open>The class MetricWrapper\<close>

text \<open>
  The wrapper's own fields. The dictionary \<open>tags\<close> is an association list with
  unique keys; \<open>AList.update\<close> is \<^verbatim>\<open>tags[k] = v\<close>. The list keeps the keys in the
  order of their first assignment; the order in which Python iterates over the
  dictionary is not fixed by the source, and no statement below depends on it. The
  field \<^verbatim>\<open>logger\<close> is stored and never read, and is left out.
\<close>

record MetricWrapper = Metric +
  delegate :: Metric
  tags :: "(string \<times> string) list"
  aggregate :: bool
  newMetricName :: "string option"

definition isAggregate :: "MetricWrapper \<Rightarrow> bool" where
  "isAggregate self = aggregate self"

definition getTags :: "MetricWrapper \<Rightarrow> (string \<times> string) list" where
  "getTags self = MetricWrapper.tags self"

text \<open>\<^verbatim>\<open>self.path = self.path.replace("." + seg + ".", ".")\<close>\<close>

definition remove_segment :: "string \<Rightarrow> MetricWrapper \<Rightarrow> MetricWrapper" where
  "remove_segment seg self =
     self\<lparr>path := replace (path self) (''.'' @ seg @ ''.'') ''.''\<rparr>"

text \<open>\<^verbatim>\<open>self.tags[k] = v\<close>\<close>

definition set_tag :: "string \<Rightarrow> string \<Rightarrow> MetricWrapper \<Rightarrow> MetricWrapper" where
  "set_tag k v self = self\<lparr>MetricWrapper.tags := AList.update k v (MetricWrapper.tags self)\<rparr>"

definition processDefaultMetric :: "MetricWrapper \<Rightarrow> exn + MetricWrapper" where
  "processDefaultMetric self = Inr (self\<lparr>MetricWrapper.tags := [], aggregate := False\<rparr>)"

definition processCpuMetric :: "MetricWrapper \<Rightarrow> exn + MetricWrapper" where
  "processCpuMetric self =
     (if length (split_on CHR ''.'' (getMetricPath self)) > 1 then
        exn_bind (idx (split_on CHR ''.'' (getMetricPath self)) 0) (\<lambda>seg0.
        exn_bind (idx (split_on CHR ''.'' (getMetricPath (delegate self))) 0) (\<lambda>cpuId.
          Inr (remove_segment cpuId
                (set_tag ''cpuId'' cpuId (self\<lparr>aggregate := (seg0 = ''total'')\<rparr>)))))
      else Inr self)"

definition processHaProxyMetric :: "MetricWrapper \<Rightarrow> exn + MetricWrapper" where
  "processHaProxyMetric self =
     (if length (split_on CHR ''.'' (getMetricPath self)) = 3 then
        exn_bind (idx (split_on CHR ''.'' (getMetricPath self)) 1) (\<lambda>seg1.
        exn_bind (idx (split_on CHR ''.'' (getMetricPath (delegate self))) 0) (\<lambda>backend.
        exn_bind (idx (split_on CHR ''.'' (getMetricPath (delegate self))) 1) (\<lambda>server.
          Inr (remove_segment backend (remove_segment server
                (set_tag ''server'' server (set_tag ''backend'' backend
                  (self\<lparr>aggregate := (seg1 = ''backend'')\<rparr>))))))))
      else Inr self)"

definition processDiskspaceMetric :: "MetricWrapper \<Rightarrow> exn + MetricWrapper" where
  "processDiskspaceMetric self =
     (if length (split_on CHR ''.'' (getMetricPath self)) = 2 then
        exn_bind (idx (split_on CHR ''.'' (getMetricPath (delegate self))) 0) (\<lambda>mountpoint.
          Inr (remove_segment mountpoint (set_tag ''mountpoint'' mountpoint self)))
      else Inr self)"

definition processDiskusageMetric :: "MetricWrapper \<Rightarrow> exn + MetricWrapper" where
  "processDiskusageMetric self =
     (if length (split_on CHR ''.'' (getMetricPath self)) = 2 then
        exn_bind (idx (split_on CHR ''.'' (getMetricPath (delegate self))) 0) (\<lambda>device.
          Inr (remove_segment device (set_tag ''device'' device self)))
      else Inr self)"

definition processNetworkMetric :: "MetricWrapper \<Rightarrow> exn + MetricWrapper" where
  "processNetworkMetric self =
     (if length (split_on CHR ''.'' (getMetricPath self)) = 2 then
        exn_bind (idx (split_on CHR ''.'' (getMetricPath (delegate self))) 0) (\<lambda>interface.
          Inr (remove_segment interface (set_tag ''interface'' interface self)))
      else Inr self)"

text \<open>
  The three \<^verbatim>\<open>if\<close> statements of \<^verbatim>\<open>processMattermostMetric\<close> run one after the
  other on the same list \<open>split\<close>, computed once before any rewrite.
\<close>

definition mattermost_team :: "string list \<Rightarrow> MetricWrapper \<Rightarrow> exn + MetricWrapper" where
  "mattermost_team split self =
     exn_bind (idx split 0) (\<lambda>s0.
       if s0 = ''teamdetails'' \<or> s0 = ''channeldetails'' then
         exn_bind (idx split 1) (\<lambda>team.
           Inr (remove_segment team (set_tag ''team'' team self)))
       else Inr self)"

definition mattermost_channel :: "string list \<Rightarrow> MetricWrapper \<Rightarrow> exn + MetricWrapper" where
  "mattermost_channel split self =
     exn_bind (idx split 0) (\<lambda>s0.
       if s0 = ''channeldetails'' then
         exn_bind (idx split 2) (\<lambda>channel.
           Inr (remove_segment channel (set_tag ''channel'' channel self)))
       else Inr self)"

definition mattermost_user :: "string list \<Rightarrow> MetricWrapper \<Rightarrow> exn + MetricWrapper" where
  "mattermost_user split self =
     exn_bind (idx split 0) (\<lambda>s0.
       if s0 = ''userdetails'' then
         exn_bind (idx split 1) (\<lambda>user.
         exn_bind (idx split 2) (\<lambda>team.
         exn_bind (idx split 3) (\<lambda>channel.
           Inr (remove_segment channel (remove_segment team (remove_segment user
                 (set_tag ''channel'' channel (set_tag ''team'' team
                   (set_tag ''user'' user self)))))))))
       else Inr self)"

definition processMattermostMetric :: "MetricWrapper \<Rightarrow> exn + MetricWrapper" where
  "processMattermostMetric self =
     (let split = split_on CHR ''.'' (getMetricPath self) in
      if length split > 2 then
        exn_bind (mattermost_team split self) (\<lambda>self1.
        exn_bind (mattermost_channel split self1) (\<lambda>self2.
          mattermost_user split self2))
      else Inr self)"

text \<open>The class attribute \<^verbatim>\<open>handlers\<close>, a dictionary from collector name to method.\<close>

definition handlers :: "string \<rightharpoonup> (MetricWrapper \<Rightarrow> exn + MetricWrapper)" where
  "handlers = map_of
     [(''cpu'', processCpuMetric),
      (''haproxy'', processHaProxyMetric),
      (''mattermost'', processMattermostMetric),
      (''diskspace'', processDiskspaceMetric),
      (''iostat'', processDiskusageMetric),
      (''network'', processNetworkMetric),
      (''default'', processDefaultMetric)]"

text \<open>\<^verbatim>\<open>self.handlers.get(name, self.handlers['default'])\<close>\<close>

definition handler_for :: "string \<Rightarrow> MetricWrapper \<Rightarrow> exn + MetricWrapper" where
  "handler_for name = (case handlers name of Some h \<Rightarrow> h | None \<Rightarrow> processDefaultMetric)"

text \<open>
  \<^verbatim>\<open>MetricWrapper.__init__(delegate, logger)\<close>: the fields are copied (\<open>wrap\<close>), then
  the handler of the collector runs on the new object. An exception leaves no object.
\<close>

definition wrap :: "Metric \<Rightarrow> MetricWrapper" where
  "wrap d = \<lparr>path = path d, value = value d, host = Metric.host d,
             raw_value = raw_value d, timestamp = timestamp d,
             precision = precision d, ttl = ttl d, metric_type = metric_type d,
             delegate = d, tags = [], aggregate = False, newMetricName = None\<rparr>"

definition MetricWrapper_init :: "Metric \<Rightarrow> exn + MetricWrapper" where
  "MetricWrapper_init d =
     (let self = wrap d
      in exn_bind (getCollectorPath self) (\<lambda>name. handler_for name self))"

text \<open>
  What a caller reads off a wrapper: its path, \<^verbatim>\<open>getMetricPath()\<close>, \<^verbatim>\<open>getTags()\<close>
  and \<^verbatim>\<open>isAggregate()\<close>.
\<close>

definition extraction :: "Metric \<Rightarrow> exn + string \<times> string \<times> (string \<times> string) list \<times> bool" where
  "extraction d =
     exn_bind (MetricWrapper_init d) (\<lambda>w.
       Inr (path w, getMetricPath w, getTags w, isAggregate w))"

text \<open>A metric as a collector publishes it, with the given path.\<close>

definition example_metric :: "string \<Rightarrow> Metric" where
  "example_metric p =
     \<lparr>path = p, value = 123, host = Some ''web01'', raw_value = 123, timestamp = 1234567,
      precision = 0, ttl = None, metric_type = ''GAUGE''\<rparr>"

subsection \<open>The class TSDBHandler: configuration\<close>

text \<open>
  The value of \<^verbatim>\<open>config['tags']\<close>: a string, a list of strings, or a value of another
  type, which \<^verbatim>\<open>__init__\<close> ignores.
\<close>

datatype tags_config = TagsString string | TagsList "string list" | TagsOther

text \<open>
  The value of \<^verbatim>\<open>config['port']\<close> and of \<^verbatim>\<open>config['timeout']\<close>: an integer (the
  defaults are 1234 and 5) or the string a configuration file gave.
\<close>

datatype cfg_value = CfgInt int | CfgStr string

text \<open>
  \<^verbatim>\<open>int(v)\<close> for such a value. A string is stripped of surrounding white space and must
  then be an optional sign followed by decimal digits; anything else is a ValueError.
\<close>

definition is_space :: "char \<Rightarrow> bool" where
  "is_space c \<longleftrightarrow> c \<in> set [CHR '' '', CHR 0x09, CHR 0x0A, CHR 0x0B, CHR 0x0C, CHR 0x0D]"

definition strip :: "string \<Rightarrow> string" where
  "strip s = rev (dropWhile is_space (rev (dropWhile is_space s)))"

definition is_digits :: "string \<Rightarrow> bool" where
  "is_digits s \<longleftrightarrow> s \<noteq> [] \<and> list_all (\<lambda>c. c \<in> set ''0123456789'') s"

definition digit_value :: "char \<Rightarrow> nat" where
  "digit_value c = length (takeWhile (\<lambda>d. d \<noteq> c) ''0123456789'')"

definition digits_value :: "string \<Rightarrow> nat" where
  "digits_value s = foldl (\<lambda>acc c. 10 * acc + digit_value c) 0 s"

definition int_of_string :: "string \<Rightarrow> exn + int" where
  "int_of_string s =
     (let t = strip s;
          body = (if t \<noteq> [] \<and> (hd t = CHR ''-'' \<or> hd t = CHR ''+'') then tl t else t)
      in if \<not> is_digits body then Inl ValueError
         else if t \<noteq> [] \<and> hd t = CHR ''-'' then Inr (- int (digits_value body))
         else Inr (int (digits_value body)))"

definition py_int :: "cfg_value \<Rightarrow> exn + int" where
  "py_int v = (case v of CfgInt i \<Rightarrow> Inr i | CfgStr s \<Rightarrow> int_of_string s)"

text \<open>The options \<^verbatim>\<open>__init__\<close> reads. The two switches are booleans.\<close>

record config =
  cfg_host :: string
  cfg_port :: cfg_value
  cfg_timeout :: cfg_value
  cfg_format :: string
  cfg_tags :: tags_config
  cfg_skipAggregates :: bool
  cfg_cleanMetrics :: bool

text \<open>Lines 79 to 86 of \<^verbatim>\<open>__init__\<close>: the string \<^verbatim>\<open>self.tags\<close>.\<close>

definition normalize_tags :: "tags_config \<Rightarrow> string" where
  "normalize_tags c =
     (let t = (case c of
                 TagsString s \<Rightarrow> s
               | TagsList l \<Rightarrow> fold (\<lambda>tag acc. acc @ '' '' @ tag) l []
               | TagsOther \<Rightarrow> [])
      in if t \<noteq> [] \<and> \<not> startswith t '' '' then '' '' @ t else t)"

text \<open>
  Lines 90 to 92: the loop over \<^verbatim>\<open>self.tags.split(" ")\<close> raises at the first token
  with more than one \<open>=\<close>.
\<close>

definition init_tags :: "tags_config \<Rightarrow> exn + string" where
  "init_tags c =
     (let t = normalize_tags c in
      case find (\<lambda>tag. count_char tag CHR ''='' > 1) (split_on CHR '' '' t) of
        Some tag \<Rightarrow> Inl (Exception (''Invalid tag name '' @ tag))
      | None \<Rightarrow> Inr t)"

subsection \<open>The class TSDBHandler: state and network\<close>

text \<open>
  What the network does is a parameter: whether the \<open>n\<close>-th call of
  \<^verbatim>\<open>socket.socket\<close>, of \<^verbatim>\<open>connect\<close> and of \<^verbatim>\<open>sendall\<close> succeeds (calls counted
  from 0). A call that does not succeed raises \<^verbatim>\<open>socket.error\<close>.
\<close>

record env =
  can_create :: "nat \<Rightarrow> bool"
  can_connect :: "nat \<Rightarrow> bool"
  can_send :: "nat \<Rightarrow> bool"

datatype log_entry = LogError string | LogDebug string

text \<open>
  The attributes of the handler, followed by a trace of what it did: the records
  given to \<^verbatim>\<open>self.log\<close>, the data of every \<^verbatim>\<open>sendall\<close> that succeeded, the sockets
  closed, and the number of calls made so far to \<^verbatim>\<open>socket.socket\<close>, \<^verbatim>\<open>connect\<close>
  and \<^verbatim>\<open>sendall\<close>. A socket is named by the number of the call that created it.
\<close>

record TSDBHandler =
  socket :: "nat option"
  host :: string
  port :: int
  timeout :: int
  metric_format :: string
  tags :: string
  skipAggregates :: bool
  cleanMetrics :: bool
  log :: "log_entry list"
  sent :: "string list"
  closed :: "nat list"
  n_socket :: nat
  n_connect :: nat
  n_sendall :: nat

definition RETRY :: nat where
  "RETRY = 3"

definition log_error :: "string \<Rightarrow> TSDBHandler \<Rightarrow> TSDBHandler" where
  "log_error msg h = h\<lparr>log := log h @ [LogError msg]\<rparr>"

definition log_debug :: "string \<Rightarrow> TSDBHandler \<Rightarrow> TSDBHandler" where
  "log_debug msg h = h\<lparr>log := log h @ [LogDebug msg]\<rparr>"

text \<open>\<^verbatim>\<open>_close\<close>\<close>

definition tsdb_close :: "TSDBHandler \<Rightarrow> TSDBHandler" where
  "tsdb_close h =
     (case socket h of
        Some k \<Rightarrow> h\<lparr>closed := closed h @ [k], socket := None\<rparr>
      | None \<Rightarrow> h\<lparr>socket := None\<rparr>)"

text \<open>
  The test \<^verbatim>\<open>if socket is None\<close> in \<^verbatim>\<open>_connect\<close> reads the module
  \<^verbatim>\<open>socket\<close>, imported at the top of the file, not \<^verbatim>\<open>self.socket\<close>.
\<close>

definition socket_module_is_None :: bool where
  "socket_module_is_None = False"

text \<open>
  \<^verbatim>\<open>_connect\<close>. The calls \<^verbatim>\<open>socket.socket(...)\<close> and \<^verbatim>\<open>settimeout\<close> stand outside
  the \<^verbatim>\<open>try\<close>; \<^verbatim>\<open>settimeout\<close> raises ValueError for a negative timeout. The result
  is the exception raised, if any, and the handler as the call leaves it.
\<close>

definition tsdb_connect :: "env \<Rightarrow> TSDBHandler \<Rightarrow> (exn + unit) \<times> TSDBHandler" where
  "tsdb_connect e h =
     (if \<not> can_create e (n_socket h) then (Inl SocketError, h\<lparr>n_socket := n_socket h + 1\<rparr>)
      else
        let h1 = h\<lparr>socket := Some (n_socket h), n_socket := n_socket h + 1\<rparr> in
        if socket_module_is_None then
          (Inr (), tsdb_close (log_error ''TSDBHandler: Unable to create socket.'' h1))
        else if timeout h1 < 0 then (Inl ValueError, h1)
        else
          let h2 = h1\<lparr>n_connect := n_connect h1 + 1\<rparr> in
          if can_connect e (n_connect h1) then
            (Inr (), log_debug ''Established connection to TSDB server %s:%d'' h2)
          else
            (Inr (), tsdb_close (log_error ''TSDBHandler: Failed to connect to %s:%i. %s'' h2)))"

text \<open>
  The loop of \<^verbatim>\<open>_send\<close>, with \<open>retry\<close> the attempts left. Only \<^verbatim>\<open>socket.error\<close> is
  caught around \<^verbatim>\<open>sendall\<close>; an exception of \<^verbatim>\<open>_connect\<close> leaves the loop.
\<close>

fun send_loop :: "env \<Rightarrow> string \<Rightarrow> nat \<Rightarrow> TSDBHandler \<Rightarrow> (exn + unit) \<times> TSDBHandler" where
  "send_loop e data 0 h = (Inr (), h)"
| "send_loop e data (Suc retry) h =
     (case socket h of
        None \<Rightarrow>
          (case tsdb_connect e (log_error ''TSDBHandler: Socket unavailable.'' h) of
             (Inl ex, h') \<Rightarrow> (Inl ex, h')
           | (Inr u, h') \<Rightarrow> send_loop e data retry h')
      | Some k \<Rightarrow>
          let h1 = h\<lparr>n_sendall := n_sendall h + 1\<rparr> in
          if can_send e (n_sendall h) then (Inr (), h1\<lparr>sent := sent h1 @ [data]\<rparr>)
          else send_loop e data retry
                 (tsdb_close (log_error ''TSDBHandler: Failed sending data. %s.'' h1)))"

definition tsdb_send :: "env \<Rightarrow> string \<Rightarrow> TSDBHandler \<Rightarrow> (exn + unit) \<times> TSDBHandler" where
  "tsdb_send e data h = send_loop e data RETRY h"

text \<open>
  \<^verbatim>\<open>__init__\<close>, in the order of the source: the constructor of the base class
  \<^verbatim>\<open>Handler\<close>, the conversions of \<^verbatim>\<open>port\<close> and \<^verbatim>\<open>timeout\<close>, the tags and
  their check, then \<^verbatim>\<open>_connect\<close>. The class \<^verbatim>\<open>Handler\<close> is not among the sources:
  the exception its constructor raises, if any, is the parameter \<open>base\<close>. An exception
  leaves no handler.
\<close>

definition tsdb_init :: "env \<Rightarrow> exn option \<Rightarrow> config \<Rightarrow> exn + TSDBHandler" where
  "tsdb_init e base c =
     (case base of
        Some ex \<Rightarrow> Inl ex
      | None \<Rightarrow>
          exn_bind (py_int (cfg_port c)) (\<lambda>p.
          exn_bind (py_int (cfg_timeout c)) (\<lambda>t.
          exn_bind (init_tags (cfg_tags c)) (\<lambda>ts.
            case tsdb_connect e
                   \<lparr>socket = None, host = cfg_host c, port = p, timeout = t,
                    metric_format = cfg_format c, tags = ts,
                    skipAggregates = cfg_skipAggregates c,
                    cleanMetrics = cfg_cleanMetrics c,
                    log = [], sent = [], closed = [],
                    n_socket = 0, n_connect = 0, n_sendall = 0\<rparr>
            of (Inl ex, h) \<Rightarrow> Inl ex
             | (Inr u, h) \<Rightarrow> Inr h))))"

subsection \<open>The class TSDBHandler: rendering and process\<close>

text \<open>How \<^verbatim>\<open>str.format\<close> renders an integer and the host (\<^verbatim>\<open>None\<close> when unset).\<close>

definition digit :: "nat \<Rightarrow> char" where
  "digit n = ''0123456789'' ! n"

function str_nat :: "nat \<Rightarrow> string" where
  "str_nat n = (if n < 10 then [digit n] else str_nat (n div 10) @ [digit (n mod 10)])"
  by pat_completeness auto
termination
  by (relation "measure id") auto

definition str_int :: "int \<Rightarrow> string" where
  "str_int i = (if i < 0 then CHR ''-'' # str_nat (nat (- i)) else str_nat (nat i))"

definition str_host :: "string option \<Rightarrow> string" where
  "str_host h = (case h of None \<Rightarrow> ''None'' | Some s \<Rightarrow> s)"

text \<open>
  \<^verbatim>\<open>template.format(**kwargs)\<close> for string arguments. A replacement field \<open>{name}\<close>
  is looked up among the keyword arguments (KeyError when absent); \<open>{{\<close> and \<open>}}\<close>
  are literal braces; a brace without its partner is a ValueError; an empty or numeric
  field name asks for a positional argument, and there is none (IndexError). A field
  with a conversion, a format specification, an attribute or an index is not part of
  this model, which answers \<open>OutsideModel\<close> for it.
\<close>

datatype format_error = Raised exn | OutsideModel

definition plain_field :: "string \<Rightarrow> bool" where
  "plain_field name = list_all (\<lambda>c. c \<notin> set ''.[!:{'') name"

definition positional_field :: "string \<Rightarrow> bool" where
  "positional_field name = list_all (\<lambda>c. c \<in> set ''0123456789'') name"

function format_from :: "string \<Rightarrow> (string \<times> string) list \<Rightarrow> format_error + string" where
  "format_from [] kw = Inr []"
| "format_from (c # cs) kw =
     (if c = CHR ''{'' then
        (if cs \<noteq> [] \<and> hd cs = CHR ''{'' then
           (case format_from (tl cs) kw of Inl e \<Rightarrow> Inl e | Inr r \<Rightarrow> Inr (CHR ''{'' # r))
         else
           let name = takeWhile (\<lambda>x. x \<noteq> CHR ''}'') cs;
               rest = dropWhile (\<lambda>x. x \<noteq> CHR ''}'') cs
           in if rest = [] then Inl (Raised ValueError)
              else if \<not> plain_field name then Inl OutsideModel
              else if positional_field name then Inl (Raised IndexError)
              else (case map_of kw name of
                      None \<Rightarrow> Inl (Raised (KeyError name))
                    | Some v \<Rightarrow>
                        (case format_from (tl rest) kw of
                           Inl e \<Rightarrow> Inl e
                         | Inr r \<Rightarrow> Inr (v @ r))))
      else if c = CHR ''}'' then
        (if cs \<noteq> [] \<and> hd cs = CHR ''}'' then
           (case format_from (tl cs) kw of Inl e \<Rightarrow> Inl e | Inr r \<Rightarrow> Inr (CHR ''}'' # r))
         else Inl (Raised ValueError))
      else
        (case format_from cs kw of Inl e \<Rightarrow> Inl e | Inr r \<Rightarrow> Inr (c # r)))"
  by pat_completeness auto
termination
proof (relation "measure (\<lambda>(s, kw). length s)")
  fix c :: char and cs :: string and kw :: "(string \<times> string) list" and name rest :: string
  assume "rest = dropWhile (\<lambda>x. x \<noteq> CHR ''}'') cs"
  moreover have "length (dropWhile (\<lambda>x. x \<noteq> CHR ''}'') cs) \<le> length cs"
    by (rule length_dropWhile_le)
  ultimately show "((tl rest, kw), (c # cs, kw)) \<in> measure (\<lambda>(s, kw). length s)"
    by simp
qed auto

text \<open>
  The keyword arguments of the call \<^verbatim>\<open>self.metric_format.format(...)\<close> in
  \<^verbatim>\<open>process\<close>, for the object \<open>metric\<close> that the call reads: the wrapper when
  cleaning is on, the metric as received otherwise.
\<close>

definition format_kwargs :: "'a Metric_scheme \<Rightarrow> string \<Rightarrow> exn + (string \<times> string) list" where
  "format_kwargs metric tagsForMetric =
     exn_bind (getCollectorPath metric) (\<lambda>collector.
       Inr [(''Collector'', collector),
            (''Path'', path metric),
            (''Metric'', getMetricPath metric),
            (''host'', str_host (Metric.host metric)),
            (''timestamp'', str_int (timestamp metric)),
            (''value'', str_int (value metric)),
            (''tags'', tagsForMetric)])"

definition render :: "string \<Rightarrow> 'a Metric_scheme \<Rightarrow> string \<Rightarrow> format_error + string" where
  "render template metric tagsForMetric =
     (case format_kwargs metric tagsForMetric of
        Inl ex \<Rightarrow> Inl (Raised ex)
      | Inr kw \<Rightarrow> format_from template kw)"

text \<open>Lines 156 to 166 of \<^verbatim>\<open>process\<close>: render the line and send it.\<close>

definition send_metric ::
  "env \<Rightarrow> 'a Metric_scheme \<Rightarrow> string \<Rightarrow> TSDBHandler \<Rightarrow> (format_error + unit) \<times> TSDBHandler" where
  "send_metric e metric tagsForMetric h =
     (case render (metric_format h) metric tagsForMetric of
        Inl err \<Rightarrow> (Inl err, h)
      | Inr metric_str \<Rightarrow>
          (case tsdb_send e (''put '' @ metric_str @ [CHR 0x0A]) h of
             (Inl ex, h') \<Rightarrow> (Inl (Raised ex), h')
           | (Inr u, h') \<Rightarrow> (Inr (), h')))"

text \<open>The loop of \<^verbatim>\<open>process\<close> over the tags of the wrapper.\<close>

definition tags_suffix :: "string \<Rightarrow> (string \<times> string) list \<Rightarrow> string" where
  "tags_suffix static ts = fold (\<lambda>(tagKey, v) acc. acc @ '' '' @ tagKey @ ''='' @ v) ts static"

definition tsdb_process ::
  "env \<Rightarrow> Metric \<Rightarrow> TSDBHandler \<Rightarrow> (format_error + unit) \<times> TSDBHandler" where
  "tsdb_process e metric h =
     (if cleanMetrics h then
        (case MetricWrapper_init metric of
           Inl ex \<Rightarrow> (Inl (Raised ex), h)
         | Inr w \<Rightarrow>
             if skipAggregates h \<and> isAggregate w then (Inr (), h)
             else send_metric e w (tags_suffix (TSDBHandler.tags h) (getTags w)) h)
      else send_metric e metric (TSDBHandler.tags h) h)"

subsection \<open>Example states\<close>

text \<open>
  Three networks: one where every call succeeds, one where every \<^verbatim>\<open>connect\<close> is
  refused, and one where no socket can be created. The handler is as \<^verbatim>\<open>__init__\<close>
  leaves it before \<^verbatim>\<open>_connect\<close>, with the default format.
\<close>

definition network_up :: env where
  "network_up = \<lparr>can_create = (\<lambda>n. True), can_connect = (\<lambda>n. True), can_send = (\<lambda>n. True)\<rparr>"

definition server_down :: env where
  "server_down = \<lparr>can_create = (\<lambda>n. True), can_connect = (\<lambda>n. False), can_send = (\<lambda>n. True)\<rparr>"

definition no_sockets :: env where
  "no_sockets = \<lparr>can_create = (\<lambda>n. False), can_connect = (\<lambda>n. True), can_send = (\<lambda>n. True)\<rparr>"

definition example_handler :: TSDBHandler where
  "example_handler =
     \<lparr>socket = None, host = ''tsdb.example.org'', port = 4242, timeout = 5,
      metric_format = ''{Collector}.{Metric} {timestamp} {value} hostname={host}{tags}'',
      tags = '' env=prod'', skipAggregates = True, cleanMetrics = True,
      log = [], sent = [], closed = [], n_socket = 0, n_connect = 0, n_sendall = 0\<rparr>"


section \<open>Segments of a dotted path\<close>

text \<open>
  The definitions of this section describe the rewrite of a path on its list of
  segments; they serve the proofs only. \<open>dotted ys\<close> is the text of the segments
  \<open>ys\<close> with a dot before each. \<open>del_seg v segs\<close> is what replacing \<open>.v.\<close> by
  \<open>.\<close> does to the segments of a path: a segment equal to \<open>v\<close> goes, unless it is the
  first or the last one, or the segment before it has just gone (the dot between the
  two was used up by the match before).
\<close>

definition dotted :: "string list \<Rightarrow> string" where
  "dotted ys = concat (map (\<lambda>y. CHR ''.'' # y) ys)"

fun del_mid :: "string \<Rightarrow> string list \<Rightarrow> string list" where
  "del_mid v [] = []"
| "del_mid v [y] = [y]"
| "del_mid v (y # z # zs) = (if y = v then z # del_mid v zs else y # del_mid v (z # zs))"

definition del_seg :: "string \<Rightarrow> string list \<Rightarrow> string list" where
  "del_seg v segs = (case segs of [] \<Rightarrow> [] | x # ys \<Rightarrow> x # del_mid v ys)"

definition inner :: "string \<Rightarrow> string list \<Rightarrow> bool" where
  "inner v segs \<longleftrightarrow> segs \<noteq> [] \<and> count_list segs v \<le> 1 \<and> hd segs \<noteq> v \<and> last segs \<noteq> v"

text \<open>
  \<open>rewrote self w vs\<close>: the wrapper \<open>w\<close> comes from \<open>self\<close> by removing the
  segments \<open>vs\<close>, in this order, each a segment of the metric path, and every tag value
  of \<open>w\<close> is among them.
\<close>

definition rewrote :: "MetricWrapper \<Rightarrow> MetricWrapper \<Rightarrow> string list \<Rightarrow> bool" where
  "rewrote self w vs \<longleftrightarrow>
     set vs \<subseteq> set (drop 3 (split_on CHR ''.'' (path self))) \<and>
     path w = fold (\<lambda>v q. replace q (CHR ''.'' # v @ ''.'') ''.'') vs (path self) \<and>
     snd ` set (MetricWrapper.tags w) \<subseteq> set vs"


section \<open>Strings and segments\<close>

lemma split_on_nonempty [simp]: "split_on c s \<noteq> []"
  by (induction s) (auto split: list.splits)

lemma split_on_free: "x \<in> set (split_on c s) \<Longrightarrow> c \<notin> set x"
  by (induction s arbitrary: x) (auto split: list.splits if_splits)

lemma join_Cons: "join sep (x # ys) = x @ concat (map (\<lambda>y. sep @ y) ys)"
  by (induction ys arbitrary: x) auto

lemma join_dotted: "join ''.'' (x # ys) = x @ dotted ys"
  by (simp add: join_Cons dotted_def)

lemma join_split: "join [c] (split_on c s) = s"
  by (induction s) (auto split: list.splits simp: join_Cons)

lemma split_on_append_free:
  "c \<notin> set x \<Longrightarrow> split_on c (x @ c # s) = x # split_on c s"
  by (induction x) (auto split: list.splits)

lemma split_on_free_id: "c \<notin> set x \<Longrightarrow> split_on c x = [x]"
  by (induction x) (auto split: list.splits)

lemma split_on_concat:
  "c \<notin> set x \<Longrightarrow> \<forall>y \<in> set ys. c \<notin> set y \<Longrightarrow>
   split_on c (x @ concat (map (\<lambda>y. c # y) ys)) = x # ys"
  by (induction ys arbitrary: x) (simp_all add: split_on_free_id split_on_append_free)

lemma split_join:
  "segs \<noteq> [] \<Longrightarrow> \<forall>x \<in> set segs. c \<notin> set x \<Longrightarrow> split_on c (join [c] segs) = segs"
  by (cases segs) (simp_all add: join_Cons split_on_concat)

lemma split_on_dotted:
  "CHR ''.'' \<notin> set x \<Longrightarrow> \<forall>y \<in> set ys. CHR ''.'' \<notin> set y \<Longrightarrow>
   split_on CHR ''.'' (x @ dotted ys) = x # ys"
  by (simp add: dotted_def split_on_concat)

lemma replace_from_skip:
  "c \<notin> set x \<Longrightarrow> replace_from (x @ s) (c # p) new = x @ replace_from s (c # p) new"
  by (induction x) auto

lemma match_segment:
  assumes "CHR ''.'' \<notin> set y" "CHR ''.'' \<notin> set v" "rest = [] \<or> hd rest = CHR ''.''"
  shows "take (length (CHR ''.'' # v @ ''.'')) (CHR ''.'' # y @ rest) = CHR ''.'' # v @ ''.''
         \<longleftrightarrow> y = v \<and> rest \<noteq> []"
proof
  assume "y = v \<and> rest \<noteq> []"
  with assms(3) show "take (length (CHR ''.'' # v @ ''.'')) (CHR ''.'' # y @ rest) = CHR ''.'' # v @ ''.''"
    by (cases rest) auto
next
  assume "take (length (CHR ''.'' # v @ ''.'')) (CHR ''.'' # y @ rest) = CHR ''.'' # v @ ''.''"
  then have "take (length (v @ ''.'')) (y @ rest) = v @ ''.''" by simp
  then obtain t where eq: "y @ rest = (v @ ''.'') @ t"
    by (metis append_take_drop_id)
  then have "y @ rest = v @ (CHR ''.'' # t)" by simp
  then obtain u where "(y = v @ u \<and> u @ rest = CHR ''.'' # t) \<or> (y @ u = v \<and> rest = u @ CHR ''.'' # t)"
    by (auto simp: append_eq_append_conv2)
  then show "y = v \<and> rest \<noteq> []"
  proof
    assume a: "y = v @ u \<and> u @ rest = CHR ''.'' # t"
    with assms(1) have "u = []" by (cases u) auto
    with a show ?thesis by auto
  next
    assume a: "y @ u = v \<and> rest = u @ CHR ''.'' # t"
    with assms(2,3) have "u = []" by (cases u) auto
    with a show ?thesis by auto
  qed
qed

lemma dotted_Cons: "dotted (y # ys) = CHR ''.'' # y @ dotted ys"
  by (simp add: dotted_def)

lemma dotted_Nil: "dotted [] = []"
  by (simp add: dotted_def)

lemma dotted_hd: "dotted ys = [] \<or> hd (dotted ys) = CHR ''.''"
  by (cases ys) (simp_all add: dotted_def)

lemma dotted_empty_iff: "dotted ys = [] \<longleftrightarrow> ys = []"
  by (cases ys) (simp_all add: dotted_def)

lemma replace_from_free:
  "c \<notin> set x \<Longrightarrow> replace_from x (c # p) new = x"
  using replace_from_skip [of c x "[]" p new] by simp

lemma replace_from_dot_step:
  assumes "CHR ''.'' \<notin> set y" "CHR ''.'' \<notin> set v" "rest = [] \<or> hd rest = CHR ''.''"
  shows "replace_from (CHR ''.'' # y @ rest) (CHR ''.'' # v @ ''.'') new =
         (if y = v \<and> rest \<noteq> []
          then new @ replace_from (tl rest) (CHR ''.'' # v @ ''.'') new
          else CHR ''.'' # y @ replace_from rest (CHR ''.'' # v @ ''.'') new)"
proof (cases "y = v \<and> rest \<noteq> []")
  case True
  let ?pat = "CHR ''.'' # v @ ''.''"
  have m: "take (length ?pat) (CHR ''.'' # y @ rest) = ?pat"
    using match_segment [OF assms] True by simp
  have d: "drop (length ?pat) (CHR ''.'' # y @ rest) = tl rest"
    using True by (cases rest) auto
  have "replace_from (CHR ''.'' # y @ rest) ?pat new =
        new @ replace_from (drop (length ?pat) (CHR ''.'' # y @ rest)) ?pat new"
  proof (subst replace_from.simps(2), rule if_P, intro conjI)
    show "?pat \<noteq> []" by simp
    show "take (length ?pat) (CHR ''.'' # y @ rest) = ?pat" by (rule m)
  qed
  then have e: "replace_from (CHR ''.'' # y @ rest) ?pat new =
                new @ replace_from (tl rest) ?pat new"
    by (simp only: d)
  show ?thesis
    by (subst if_P [OF True]) (rule e)
next
  case False
  let ?pat = "CHR ''.'' # v @ ''.''"
  have m: "\<not> (?pat \<noteq> [] \<and> take (length ?pat) (CHR ''.'' # y @ rest) = ?pat)"
    using match_segment [OF assms] False by simp
  have "replace_from (CHR ''.'' # y @ rest) ?pat new =
        CHR ''.'' # replace_from (y @ rest) ?pat new"
    by (subst replace_from.simps(2), rule if_not_P, rule m)
  then have e: "replace_from (CHR ''.'' # y @ rest) ?pat new =
                CHR ''.'' # y @ replace_from rest ?pat new"
    by (simp only: replace_from_skip [OF assms(1)])
  show ?thesis
    by (subst if_not_P [OF False]) (rule e)
qed

lemma replace_from_dotted:
  assumes "CHR ''.'' \<notin> set v"
  shows "\<forall>y \<in> set ys. CHR ''.'' \<notin> set y \<Longrightarrow>
         replace_from (dotted ys) (CHR ''.'' # v @ ''.'') ''.'' = dotted (del_mid v ys)"
  using assms
proof (induction v ys rule: del_mid.induct)
  case (1 v)
  then show ?case by (simp add: dotted_def)
next
  case (2 v y)
  then show ?case
    using replace_from_dot_step [of y v "[]" "''.''"] by (simp add: dotted_Cons dotted_Nil)
next
  case (3 v y z zs)
  have step: "replace_from (CHR ''.'' # y @ dotted (z # zs)) (CHR ''.'' # v @ ''.'') ''.'' =
         (if y = v \<and> dotted (z # zs) \<noteq> []
          then ''.'' @ replace_from (tl (dotted (z # zs))) (CHR ''.'' # v @ ''.'') ''.''
          else CHR ''.'' # y @ replace_from (dotted (z # zs)) (CHR ''.'' # v @ ''.'') ''.'')"
    using 3 by (intro replace_from_dot_step dotted_hd) auto
  show ?case
  proof (cases "y = v")
    case True
    have "replace_from (z @ dotted zs) (CHR ''.'' # v @ ''.'') ''.'' = z @ dotted (del_mid v zs)"
      using 3 True by (simp add: replace_from_skip)
    then show ?thesis
      using True step by (simp add: dotted_Cons)
  next
    case False
    then show ?thesis
      using 3 step by (simp add: dotted_Cons)
  qed
qed

lemma split_replace:
  assumes "CHR ''.'' \<notin> set v"
  shows "split_on CHR ''.'' (replace s (CHR ''.'' # v @ ''.'') ''.'') = del_seg v (split_on CHR ''.'' s)"
proof -
  obtain x ys where xy: "split_on CHR ''.'' s = x # ys"
    by (cases "split_on CHR ''.'' s") auto
  have free: "CHR ''.'' \<notin> set x" "\<forall>y \<in> set ys. CHR ''.'' \<notin> set y"
    using split_on_free [of _ "CHR ''.''" s] xy by auto
  have s: "s = x @ dotted ys"
    using join_split [of "CHR ''.''" s] xy by (simp add: join_dotted)
  have "replace s (CHR ''.'' # v @ ''.'') ''.'' = x @ dotted (del_mid v ys)"
    using free assms by (simp add: replace_def s replace_from_skip replace_from_dotted)
  moreover have "\<forall>y \<in> set (del_mid v ys). CHR ''.'' \<notin> set y"
    using free(2) by (induction v ys rule: del_mid.induct) auto
  ultimately show ?thesis
    using free(1) by (simp add: xy del_seg_def split_on_dotted)
qed

lemma del_mid_subset: "set (del_mid v ys) \<subseteq> set ys"
  by (induction v ys rule: del_mid.induct) auto

lemma del_mid_count: "count_list (del_mid v ys) u \<le> count_list ys u"
  by (induction v ys rule: del_mid.induct) auto

lemma del_mid_last: "ys \<noteq> [] \<Longrightarrow> del_mid v ys \<noteq> [] \<and> last (del_mid v ys) = last ys"
  by (induction v ys rule: del_mid.induct) auto

lemma del_mid_gone:
  "count_list ys v \<le> 1 \<Longrightarrow> ys \<noteq> [] \<longrightarrow> last ys \<noteq> v \<Longrightarrow> v \<notin> set (del_mid v ys)"
proof (induction v ys rule: del_mid.induct)
  case (3 v y z zs)
  show ?case
  proof (cases "y = v")
    case True
    with 3(3) have "count_list (z # zs) v = 0" by simp
    then have "v \<notin> set (z # zs)" by (metis count_list_0_iff)
    moreover have "set (del_mid v zs) \<subseteq> set zs" by (rule del_mid_subset)
    ultimately show ?thesis using True by auto
  next
    case False
    with 3 show ?thesis by auto
  qed
qed auto

lemma del_seg_subset: "set (del_seg v segs) \<subseteq> set segs"
proof (cases segs)
  case Nil
  then show ?thesis by (simp add: del_seg_def)
next
  case (Cons x ys)
  have "set (del_mid v ys) \<subseteq> set ys" by (rule del_mid_subset)
  with Cons show ?thesis by (auto simp: del_seg_def)
qed

lemma inner_del_gone: "inner v segs \<Longrightarrow> v \<notin> set (del_seg v segs)"
  using del_mid_gone [of _ v]
  by (auto simp: inner_def del_seg_def split: list.splits if_splits)

lemma inner_del_other: "inner v segs \<Longrightarrow> inner v (del_seg u segs)"
proof -
  assume a: "inner v segs"
  then obtain x ys where s: "segs = x # ys" by (cases segs) (auto simp: inner_def)
  have c: "count_list (del_mid u ys) v \<le> count_list ys v" by (rule del_mid_count)
  have l: "ys \<noteq> [] \<Longrightarrow> del_mid u ys \<noteq> [] \<and> last (del_mid u ys) = last ys"
    by (rule del_mid_last)
  show ?thesis
  proof (cases "ys = []")
    case True
    with a s show ?thesis by (simp add: inner_def del_seg_def)
  next
    case False
    with a s c l show ?thesis by (auto simp: inner_def del_seg_def split: if_splits)
  qed
qed

lemma fold_del_notin: "v \<notin> set segs \<Longrightarrow> v \<notin> set (fold del_seg vs segs)"
  using del_seg_subset by (induction vs arbitrary: segs) auto

lemma fold_del_gone:
  "inner v segs \<Longrightarrow> v \<in> set vs \<Longrightarrow> v \<notin> set (fold del_seg vs segs)"
proof (induction vs arbitrary: segs)
  case Nil
  then show ?case by simp
next
  case (Cons u vs)
  show ?case
  proof (cases "u = v")
    case True
    with Cons.prems show ?thesis by (simp add: fold_del_notin inner_del_gone)
  next
    case False
    with Cons show ?thesis by (simp add: inner_del_other)
  qed
qed

lemma inner_tl: "count_list segs v = 1 \<Longrightarrow> v \<in> set (drop (Suc n) segs) \<Longrightarrow> last segs \<noteq> v \<Longrightarrow> inner v segs"
proof -
  assume a: "count_list segs v = 1" "v \<in> set (drop (Suc n) segs)" "last segs \<noteq> v"
  then obtain x ys where s: "segs = x # ys" by (cases segs) auto
  with a(2) have "v \<in> set ys" using in_set_dropD by fastforce
  then have "count_list ys v > 0" by (metis count_list_0_iff gr0I)
  with a s show ?thesis by (auto simp: inner_def split: if_splits)
qed

lemma metric_segments:
  assumes "1 < length (split_on CHR ''.'' (getMetricPath m))"
  shows "split_on CHR ''.'' (getMetricPath m) = drop 3 (split_on CHR ''.'' (path m))"
proof (cases "drop 3 (split_on CHR ''.'' (path m)) = []")
  case True
  with assms show ?thesis by (simp add: getMetricPath_def)
next
  case False
  have "\<forall>x \<in> set (drop 3 (split_on CHR ''.'' (path m))). CHR ''.'' \<notin> set x"
    using split_on_free in_set_dropD by metis
  with False show ?thesis
    using split_join [of "drop 3 (split_on CHR ''.'' (path m))" "CHR ''.''"]
    by (simp add: getMetricPath_def)
qed

section \<open>The rules of MetricWrapper\<close>

lemma split_fold_replace:
  "\<forall>v \<in> set vs. CHR ''.'' \<notin> set v \<Longrightarrow>
   split_on CHR ''.'' (fold (\<lambda>v q. replace q (CHR ''.'' # v @ ''.'') ''.'') vs p) =
   fold del_seg vs (split_on CHR ''.'' p)"
  by (induction vs arbitrary: p) (simp_all add: split_replace)

lemma rewritten_clean:
  assumes sub: "set vs \<subseteq> set (drop 3 (split_on CHR ''.'' p))"
    and pw: "path w = fold (\<lambda>v q. replace q (CHR ''.'' # v @ ''.'') ''.'') vs p"
    and tg: "snd ` set (MetricWrapper.tags w) \<subseteq> set vs"
    and kv: "(k, v) \<in> set (MetricWrapper.tags w)"
    and once: "count_list (split_on CHR ''.'' p) v = 1"
    and nl: "last (split_on CHR ''.'' p) \<noteq> v"
  shows "v \<notin> set (split_on CHR ''.'' (path w))"
proof -
  from kv tg have v: "v \<in> set vs" by force
  with sub have "v \<in> set (drop (Suc 2) (split_on CHR ''.'' p))"
    by (auto simp: numeral_3_eq_3)
  then have inn: "inner v (split_on CHR ''.'' p)" by (rule inner_tl [OF once _ nl])
  have "\<forall>u \<in> set vs. CHR ''.'' \<notin> set u"
    using sub split_on_free in_set_dropD by (metis subsetD)
  then have "split_on CHR ''.'' (path w) = fold del_seg vs (split_on CHR ''.'' p)"
    by (simp add: pw split_fold_replace)
  with inn v show ?thesis by (simp add: fold_del_gone)
qed

lemma getMetricPath_path: "path a = path b \<Longrightarrow> getMetricPath a = getMetricPath b"
  by (simp add: getMetricPath_def)

lemma path_remove_segment [simp]:
  "path (remove_segment v w) = replace (path w) (CHR ''.'' # v @ ''.'') ''.''"
  by (simp add: remove_segment_def)

lemma tags_remove_segment [simp]:
  "MetricWrapper.tags (remove_segment v w) = MetricWrapper.tags w"
  by (simp add: remove_segment_def)

lemma path_set_tag [simp]: "path (set_tag k v w) = path w"
  by (simp add: set_tag_def)

lemma tags_set_tag [simp]:
  "MetricWrapper.tags (set_tag k v w) = AList.update k v (MetricWrapper.tags w)"
  by (simp add: set_tag_def)

lemma aggregate_remove_segment [simp]: "aggregate (remove_segment v w) = aggregate w"
  by (simp add: remove_segment_def)

lemma aggregate_set_tag [simp]: "aggregate (set_tag k v w) = aggregate w"
  by (simp add: set_tag_def)

lemma exn_bind_Inr [simp]: "exn_bind (Inr x) f = f x"
  by (simp add: exn_bind_def)

lemma exn_bind_Inl [simp]: "exn_bind (Inl e) f = Inl e"
  by (simp add: exn_bind_def)

lemma idx_in [simp]: "i < length xs \<Longrightarrow> idx xs i = Inr (xs ! i)"
  by (simp add: idx_def)

lemma idx_out [simp]: "\<not> i < length xs \<Longrightarrow> idx xs i = Inl IndexError"
  by (simp add: idx_def)

lemma rewrote_self: "MetricWrapper.tags self = [] \<Longrightarrow> rewrote self self []"
  by (simp add: rewrote_def)

lemma cpu_rewrote:
  assumes eq: "path self = path (delegate self)" and nt: "MetricWrapper.tags self = []"
    and r: "processCpuMetric self = Inr w"
  shows "\<exists>vs. rewrote self w vs"
proof (cases "1 < length (split_on CHR ''.'' (getMetricPath self))")
  case False
  with r nt have "rewrote self w []" by (simp add: processCpuMetric_def rewrote_def)
  then show ?thesis ..
next
  case True
  define ms where "ms = drop 3 (split_on CHR ''.'' (path self))"
  have ms: "split_on CHR ''.'' (getMetricPath self) = ms"
    unfolding ms_def using True by (rule metric_segments)
  have ds: "split_on CHR ''.'' (getMetricPath (delegate self)) = ms"
    using ms getMetricPath_path [OF eq] by simp
  from True ms have len: "1 < length ms" by simp
  then have ne: "ms \<noteq> []" by auto
  have w: "w = remove_segment (ms ! 0)
                 (set_tag ''cpuId'' (ms ! 0) (self\<lparr>aggregate := (ms ! 0 = ''total'')\<rparr>))"
    using r len ne by (simp add: processCpuMetric_def ms ds)
  have "rewrote self w [ms ! 0]"
    using ne by (simp add: rewrote_def w nt ms_def [symmetric])
  then show ?thesis ..
qed

lemma haproxy_rewrote:
  assumes eq: "path self = path (delegate self)" and nt: "MetricWrapper.tags self = []"
    and r: "processHaProxyMetric self = Inr w"
  shows "\<exists>vs. rewrote self w vs"
proof (cases "length (split_on CHR ''.'' (getMetricPath self)) = 3")
  case False
  with r nt have "rewrote self w []" by (simp add: processHaProxyMetric_def rewrote_def)
  then show ?thesis ..
next
  case True
  define ms where "ms = drop 3 (split_on CHR ''.'' (path self))"
  have ms: "split_on CHR ''.'' (getMetricPath self) = ms"
    unfolding ms_def using True by (intro metric_segments) simp
  have ds: "split_on CHR ''.'' (getMetricPath (delegate self)) = ms"
    using ms getMetricPath_path [OF eq] by simp
  from True ms have len: "length ms = 3" by simp
  then have ne: "ms \<noteq> []" by auto
  have w: "w = remove_segment (ms ! 0) (remove_segment (ms ! 1)
                 (set_tag ''server'' (ms ! 1) (set_tag ''backend'' (ms ! 0)
                   (self\<lparr>aggregate := (ms ! 1 = ''backend'')\<rparr>))))"
    using r len ne by (simp add: processHaProxyMetric_def ms ds)
  have "rewrote self w [ms ! 1, ms ! 0]"
    using ne len by (simp add: rewrote_def w nt ms_def [symmetric])
  then show ?thesis ..
qed

lemma one_segment_rewrote:
  assumes eq: "path self = path (delegate self)" and nt: "MetricWrapper.tags self = []"
    and r: "(if length (split_on CHR ''.'' (getMetricPath self)) = 2 then
               exn_bind (idx (split_on CHR ''.'' (getMetricPath (delegate self))) 0) (\<lambda>seg.
                 Inr (remove_segment seg (set_tag key seg self)))
             else Inr self) = Inr w"
  shows "\<exists>vs. rewrote self w vs"
proof (cases "length (split_on CHR ''.'' (getMetricPath self)) = 2")
  case False
  with r nt have "rewrote self w []" by (simp add: rewrote_def)
  then show ?thesis ..
next
  case True
  define ms where "ms = drop 3 (split_on CHR ''.'' (path self))"
  have ms: "split_on CHR ''.'' (getMetricPath self) = ms"
    unfolding ms_def using True by (intro metric_segments) simp
  have ds: "split_on CHR ''.'' (getMetricPath (delegate self)) = ms"
    using ms getMetricPath_path [OF eq] by simp
  from True ms have len: "length ms = 2" by simp
  then have ne: "ms \<noteq> []" by auto
  have w: "w = remove_segment (ms ! 0) (set_tag key (ms ! 0) self)"
    using r len ne by (simp add: ms ds)
  have "rewrote self w [ms ! 0]"
    using ne len by (simp add: rewrote_def w nt ms_def [symmetric])
  then show ?thesis ..
qed

lemma diskspace_rewrote:
  "path self = path (delegate self) \<Longrightarrow> MetricWrapper.tags self = [] \<Longrightarrow>
   processDiskspaceMetric self = Inr w \<Longrightarrow> \<exists>vs. rewrote self w vs"
  unfolding processDiskspaceMetric_def by (rule one_segment_rewrote)

lemma diskusage_rewrote:
  "path self = path (delegate self) \<Longrightarrow> MetricWrapper.tags self = [] \<Longrightarrow>
   processDiskusageMetric self = Inr w \<Longrightarrow> \<exists>vs. rewrote self w vs"
  unfolding processDiskusageMetric_def by (rule one_segment_rewrote)

lemma network_rewrote:
  "path self = path (delegate self) \<Longrightarrow> MetricWrapper.tags self = [] \<Longrightarrow>
   processNetworkMetric self = Inr w \<Longrightarrow> \<exists>vs. rewrote self w vs"
  unfolding processNetworkMetric_def by (rule one_segment_rewrote)

lemma default_rewrote:
  "processDefaultMetric self = Inr w \<Longrightarrow> \<exists>vs. rewrote self w vs"
  by (rule exI [of _ "[]"]) (auto simp: processDefaultMetric_def rewrote_def)

lemma mattermost_rewrote:
  assumes nt: "MetricWrapper.tags self = []"
    and r: "processMattermostMetric self = Inr w"
  shows "\<exists>vs. rewrote self w vs"
proof (cases "2 < length (split_on CHR ''.'' (getMetricPath self))")
  case False
  with r nt have "rewrote self w []"
    by (simp add: processMattermostMetric_def rewrote_def)
  then show ?thesis ..
next
  case True
  define ms where "ms = drop 3 (split_on CHR ''.'' (path self))"
  have ms: "split_on CHR ''.'' (getMetricPath self) = ms"
    unfolding ms_def using True by (intro metric_segments) simp
  from True ms have len: "2 < length ms" by simp
  then have ne: "ms \<noteq> []" "0 < length ms" "1 < length ms" by auto
  have mem: "ms ! 0 \<in> set ms" "ms ! 1 \<in> set ms" "ms ! 2 \<in> set ms"
    using len ne by simp_all
  consider (team) "ms ! 0 = ''teamdetails''" | (channel) "ms ! 0 = ''channeldetails''"
    | (user) "ms ! 0 = ''userdetails''"
    | (other) "ms ! 0 \<noteq> ''teamdetails''" "ms ! 0 \<noteq> ''channeldetails''" "ms ! 0 \<noteq> ''userdetails''"
    by blast
  then show ?thesis
  proof cases
    case team
    have w: "w = remove_segment (ms ! 1) (set_tag ''team'' (ms ! 1) self)"
      using r len ne team
      by (simp add: processMattermostMetric_def ms mattermost_team_def
            mattermost_channel_def mattermost_user_def)
    have "rewrote self w [ms ! 1]"
      using mem by (simp add: rewrote_def w nt ms_def [symmetric])
    then show ?thesis ..
  next
    case channel
    have w: "w = remove_segment (ms ! 2) (set_tag ''channel'' (ms ! 2)
                  (remove_segment (ms ! 1) (set_tag ''team'' (ms ! 1) self)))"
      using r len ne channel
      by (simp add: processMattermostMetric_def ms mattermost_team_def
            mattermost_channel_def mattermost_user_def)
    have "rewrote self w [ms ! 1, ms ! 2]"
      using mem by (simp add: rewrote_def w nt ms_def [symmetric])
    then show ?thesis ..
  next
    case user
    have l3: "3 < length ms"
      using r len ne user
      by (simp add: processMattermostMetric_def ms mattermost_team_def
            mattermost_channel_def mattermost_user_def idx_def split: if_splits)
    have w: "w = remove_segment (ms ! 3) (remove_segment (ms ! 2) (remove_segment (ms ! 1)
                  (set_tag ''channel'' (ms ! 3) (set_tag ''team'' (ms ! 2)
                    (set_tag ''user'' (ms ! 1) self)))))"
      using r len ne user l3
      by (simp add: processMattermostMetric_def ms mattermost_team_def
            mattermost_channel_def mattermost_user_def)
    have "ms ! 3 \<in> set ms" using l3 by simp
    then have "rewrote self w [ms ! 1, ms ! 2, ms ! 3]"
      using mem by (simp add: rewrote_def w nt ms_def [symmetric])
    then show ?thesis ..
  next
    case other
    have w: "w = self"
      using r len ne other
      by (simp add: processMattermostMetric_def ms mattermost_team_def
            mattermost_channel_def mattermost_user_def)
    then show ?thesis using rewrote_self [OF nt] by auto
  qed
qed

lemma handler_for_cases:
  "handler_for name =
     (if name = ''cpu'' then processCpuMetric
      else if name = ''haproxy'' then processHaProxyMetric
      else if name = ''mattermost'' then processMattermostMetric
      else if name = ''diskspace'' then processDiskspaceMetric
      else if name = ''iostat'' then processDiskusageMetric
      else if name = ''network'' then processNetworkMetric
      else processDefaultMetric)"
  by (simp add: handler_for_def handlers_def)

lemma handler_rewrote:
  assumes eq: "path self = path (delegate self)" and nt: "MetricWrapper.tags self = []"
    and r: "handler_for name self = Inr w"
  shows "\<exists>vs. rewrote self w vs"
  using r cpu_rewrote [OF eq nt] haproxy_rewrote [OF eq nt] mattermost_rewrote [OF nt]
    diskspace_rewrote [OF eq nt] diskusage_rewrote [OF eq nt] network_rewrote [OF eq nt]
    default_rewrote
  by (simp add: handler_for_cases split: if_splits)


lemma path_wrap [simp]: "path (wrap d) = path d"
  by (simp add: wrap_def)

lemma delegate_wrap [simp]: "delegate (wrap d) = d"
  by (simp add: wrap_def)

lemma tags_wrap [simp]: "MetricWrapper.tags (wrap d) = []"
  by (simp add: wrap_def)

lemma aggregate_wrap [simp]: "aggregate (wrap d) = False"
  by (simp add: wrap_def)

lemma MetricWrapper_init_handler:
  "MetricWrapper_init d = Inr w \<Longrightarrow> \<exists>name. handler_for name (wrap d) = Inr w"
  by (auto simp: MetricWrapper_init_def Let_def exn_bind_def split: sum.splits)

lemma getCollectorPath_wrap [simp]: "getCollectorPath (wrap d) = getCollectorPath d"
  by (simp add: getCollectorPath_def)

lemma getMetricPath_wrap [simp]: "getMetricPath (wrap d) = getMetricPath d"
  by (simp add: getMetricPath_def)

lemma cpu_aggregate:
  "processCpuMetric (wrap d) =
     Inr w \<Longrightarrow> aggregate w \<longleftrightarrow>
       1 < length (split_on CHR ''.'' (getMetricPath d)) \<and>
       split_on CHR ''.'' (getMetricPath d) ! 0 = ''total''"
  by (auto simp: processCpuMetric_def idx_def split: if_splits)

lemma cpu_returns: "\<exists>w. processCpuMetric (wrap d) = Inr w"
  by (simp add: processCpuMetric_def idx_def)

lemma haproxy_aggregate:
  "processHaProxyMetric (wrap d) =
     Inr w \<Longrightarrow> aggregate w \<longleftrightarrow>
       length (split_on CHR ''.'' (getMetricPath d)) = 3 \<and>
       split_on CHR ''.'' (getMetricPath d) ! 1 = ''backend''"
  by (auto simp: processHaProxyMetric_def idx_def split: if_splits)

lemma haproxy_returns: "\<exists>w. processHaProxyMetric (wrap d) = Inr w"
  by (simp add: processHaProxyMetric_def idx_def)

lemma mattermost_aggregate:
  "processMattermostMetric self = Inr w \<Longrightarrow> aggregate w = aggregate self"
  by (auto simp: processMattermostMetric_def mattermost_team_def mattermost_channel_def
        mattermost_user_def idx_def Let_def exn_bind_def split: if_splits sum.splits)

lemma diskspace_aggregate:
  "processDiskspaceMetric self = Inr w \<Longrightarrow> aggregate w = aggregate self"
  by (auto simp: processDiskspaceMetric_def idx_def split: if_splits)

lemma diskusage_aggregate:
  "processDiskusageMetric self = Inr w \<Longrightarrow> aggregate w = aggregate self"
  by (auto simp: processDiskusageMetric_def idx_def split: if_splits)

lemma network_aggregate:
  "processNetworkMetric self = Inr w \<Longrightarrow> aggregate w = aggregate self"
  by (auto simp: processNetworkMetric_def idx_def split: if_splits)

lemma default_aggregate:
  "processDefaultMetric self = Inr w \<Longrightarrow> aggregate w = False"
  by (auto simp: processDefaultMetric_def)

lemma handler_aggregate:
  assumes "handler_for name (wrap d) = Inr w"
  shows "aggregate w \<longleftrightarrow>
     (name = ''cpu'' \<and> 1 < length (split_on CHR ''.'' (getMetricPath d)) \<and>
        split_on CHR ''.'' (getMetricPath d) ! 0 = ''total'') \<or>
     (name = ''haproxy'' \<and> length (split_on CHR ''.'' (getMetricPath d)) = 3 \<and>
        split_on CHR ''.'' (getMetricPath d) ! 1 = ''backend'')"
proof -
  consider (cpu) "name = ''cpu''" | (haproxy) "name = ''haproxy''"
    | (mattermost) "name = ''mattermost''" | (diskspace) "name = ''diskspace''"
    | (iostat) "name = ''iostat''" | (network) "name = ''network''"
    | (other) "name \<noteq> ''cpu''" "name \<noteq> ''haproxy''" "name \<noteq> ''mattermost''"
        "name \<noteq> ''diskspace''" "name \<noteq> ''iostat''" "name \<noteq> ''network''"
    by blast
  then show ?thesis
  proof cases
    case cpu
    with assms show ?thesis using cpu_aggregate [of d w] by (simp add: handler_for_cases)
  next
    case haproxy
    with assms show ?thesis using haproxy_aggregate [of d w] by (simp add: handler_for_cases)
  next
    case mattermost
    with assms show ?thesis
      using mattermost_aggregate [of "wrap d" w] by (simp add: handler_for_cases)
  next
    case diskspace
    with assms show ?thesis
      using diskspace_aggregate [of "wrap d" w] by (simp add: handler_for_cases)
  next
    case iostat
    with assms show ?thesis
      using diskusage_aggregate [of "wrap d" w] by (simp add: handler_for_cases)
  next
    case network
    with assms show ?thesis
      using network_aggregate [of "wrap d" w] by (simp add: handler_for_cases)
  next
    case other
    with assms show ?thesis
      using default_aggregate [of "wrap d" w] by (simp add: handler_for_cases)
  qed
qed

section \<open>The connection\<close>

lemma socket_tsdb_close [simp]: "socket (tsdb_close h) = None"
  by (simp add: tsdb_close_def split: option.splits)

lemma tsdb_close_disconnected: "socket h = None \<Longrightarrow> tsdb_close h = h"
  by (simp add: tsdb_close_def)

lemma connect_refused:
  assumes "can_create e (n_socket h)" "\<not> can_connect e (n_connect h)" "0 \<le> timeout h"
  shows "tsdb_connect e h =
    (Inr (), h\<lparr>socket := None, n_socket := n_socket h + 1, n_connect := n_connect h + 1,
              closed := closed h @ [n_socket h],
              log := log h @ [LogError ''TSDBHandler: Failed to connect to %s:%i. %s'']\<rparr>)"
  using assms
  by (simp add: tsdb_connect_def socket_module_is_None_def Let_def tsdb_close_def log_error_def)

lemma send_loop_server_down:
  assumes "\<forall>n. can_create e n" "\<forall>n. \<not> can_connect e n"
  shows "socket h = None \<Longrightarrow> 0 \<le> timeout h \<Longrightarrow>
    \<exists>h'. send_loop e data r h = (Inr (), h') \<and> socket h' = None \<and> timeout h' = timeout h \<and>
         sent h' = sent h \<and> n_sendall h' = n_sendall h \<and>
         n_socket h' = n_socket h + r \<and> n_connect h' = n_connect h + r"
proof (induction r arbitrary: h)
  case 0
  then show ?case by simp
next
  case (Suc r)
  let ?g = "log_error ''TSDBHandler: Socket unavailable.'' h"
  have c: "tsdb_connect e ?g =
    (Inr (), ?g\<lparr>socket := None, n_socket := n_socket ?g + 1, n_connect := n_connect ?g + 1,
              closed := closed ?g @ [n_socket ?g],
              log := log ?g @ [LogError ''TSDBHandler: Failed to connect to %s:%i. %s'']\<rparr>)"
    using assms Suc.prems by (intro connect_refused) (simp_all add: log_error_def)
  let ?h1 = "?g\<lparr>socket := None, n_socket := n_socket ?g + 1, n_connect := n_connect ?g + 1,
              closed := closed ?g @ [n_socket ?g],
              log := log ?g @ [LogError ''TSDBHandler: Failed to connect to %s:%i. %s'']\<rparr>"
  have "socket ?h1 = None" "0 \<le> timeout ?h1"
    using Suc.prems by (simp_all add: log_error_def)
  from Suc.IH [OF this] obtain h' where
    h': "send_loop e data r ?h1 = (Inr (), h')" "socket h' = None" "timeout h' = timeout ?h1"
      "sent h' = sent ?h1" "n_sendall h' = n_sendall ?h1"
      "n_socket h' = n_socket ?h1 + r" "n_connect h' = n_connect ?h1 + r"
    by blast
  have "send_loop e data (Suc r) h = (Inr (), h')"
    using Suc.prems(1) c h'(1) by simp
  then show ?case
    using h' by (simp add: log_error_def)
qed

text \<open>
  Where sockets can be created and every \<^verbatim>\<open>connect\<close> is refused, \<^verbatim>\<open>_send\<close> from a
  disconnected handler returns after exactly three attempts, sends nothing, and the
  next call has three attempts again.
\<close>

lemma send_gives_up_when_connect_refused:
  assumes "\<forall>n. can_create e n" and "\<forall>n. \<not> can_connect e n"
    and "socket h = None" and "0 \<le> timeout h"
  shows "\<exists>h1 h2.
     tsdb_send e data h = (Inr (), h1) \<and> socket h1 = None \<and>
     sent h1 = sent h \<and> n_sendall h1 = n_sendall h \<and>
     n_socket h1 = n_socket h + 3 \<and> n_connect h1 = n_connect h + 3 \<and>
     tsdb_send e data' h1 = (Inr (), h2) \<and> socket h2 = None \<and>
     sent h2 = sent h \<and> n_sendall h2 = n_sendall h \<and>
     n_socket h2 = n_socket h1 + 3 \<and> n_connect h2 = n_connect h1 + 3"
proof -
  obtain h1 where h1: "send_loop e data 3 h = (Inr (), h1)" "socket h1 = None"
      "timeout h1 = timeout h" "sent h1 = sent h" "n_sendall h1 = n_sendall h"
      "n_socket h1 = n_socket h + 3" "n_connect h1 = n_connect h + 3"
    using send_loop_server_down [OF assms(1,2,3,4), of data 3] by blast
  then have "socket h1 = None" "0 \<le> timeout h1" using assms(4) by simp_all
  then obtain h2 where h2: "send_loop e data' 3 h1 = (Inr (), h2)" "socket h2 = None"
      "sent h2 = sent h1" "n_sendall h2 = n_sendall h1"
      "n_socket h2 = n_socket h1 + 3" "n_connect h2 = n_connect h1 + 3"
    using send_loop_server_down [OF assms(1,2), of h1 data' 3] by blast
  show ?thesis
    using h1 h2 by (simp add: tsdb_send_def RETRY_def)
qed

lemma connect_returns:
  assumes "can_create e (n_socket h)" "0 \<le> timeout h"
  shows "\<exists>h'. tsdb_connect e h = (Inr (), h') \<and>
              (socket h' \<noteq> None) = can_connect e (n_connect h) \<and>
              (can_connect e (n_connect h) \<or> (\<exists>m. LogError m \<in> set (log h')))"
  using assms
  by (auto simp: tsdb_connect_def socket_module_is_None_def Let_def tsdb_close_def
        log_error_def log_debug_def)

section \<open>Rendering and process\<close>

lemma replace_segments:
  assumes "CHR ''.'' \<notin> set v"
  shows "replace s (CHR ''.'' # v @ ''.'') ''.'' = join ''.'' (del_seg v (split_on CHR ''.'' s))"
  using split_replace [OF assms, of s] join_split [of "CHR ''.''" "replace s (CHR ''.'' # v @ ''.'') ''.''"]
  by simp

lemma send_metric_rendered:
  "render (metric_format h) m t = Inr line \<Longrightarrow>
   send_metric e m t h =
     (case tsdb_send e (''put '' @ line @ [CHR 0x0A]) h of
        (Inl ex, h') \<Rightarrow> (Inl (Raised ex), h')
      | (Inr u, h') \<Rightarrow> (Inr (), h'))"
  by (simp add: send_metric_def)

text \<open>
  What a replacement field does, for any template around it: a field \<open>{name}\<close> with a
  plain, non-numeric name bound by the keyword arguments renders as the value bound.
\<close>

lemma format_from_field:
  assumes "CHR ''}'' \<notin> set name" and "plain_field name" and "\<not> positional_field name"
    and "map_of kw name = Some v"
  shows "format_from (CHR ''{'' # name @ CHR ''}'' # rest) kw =
     (case format_from rest kw of Inl e \<Rightarrow> Inl e | Inr r \<Rightarrow> Inr (v @ r))"
proof -
  from assms(3) have ne: "name \<noteq> []" by (auto simp: positional_field_def)
  with assms(2) have h: "hd (name @ CHR ''}'' # rest) \<noteq> CHR ''{''"
    by (cases name) (auto simp: plain_field_def)
  have tw: "takeWhile (\<lambda>x. x \<noteq> CHR ''}'') (name @ CHR ''}'' # rest) = name"
    using assms(1) by (induction name) auto
  have dw: "dropWhile (\<lambda>x. x \<noteq> CHR ''}'') (name @ CHR ''}'' # rest) = CHR ''}'' # rest"
    using assms(1) by (induction name) auto
  show ?thesis
    by (subst format_from.simps(2)) (simp add: h tw dw Let_def assms(2,3,4))
qed

lemma format_path_metric:
  "format_from ''{Path} {Metric}''
     [(''Collector'', c), (''Path'', p), (''Metric'', m), (''host'', ho),
      (''timestamp'', ts), (''value'', va), (''tags'', tg)] = Inr (p @ '' '' @ m)"
  by (simp add: plain_field_def positional_field_def Let_def)

lemma connect_never_tag_exception: "tsdb_connect e h \<noteq> (Inl (Exception msg), h')"
  by (auto simp: tsdb_connect_def Let_def split: if_splits)

lemma init_tags_fails_iff:
  "(\<exists>tag. init_tags c = Inl (Exception (''Invalid tag name '' @ tag))) \<longleftrightarrow>
   (\<exists>tag \<in> set (split_on CHR '' '' (normalize_tags c)). 2 \<le> count_char tag CHR ''='')"
proof (cases "find (\<lambda>tag. count_char tag CHR ''='' > 1) (split_on CHR '' '' (normalize_tags c))")
  case None
  then have "init_tags c = Inr (normalize_tags c)"
    by (simp add: init_tags_def Let_def)
  moreover from None have
    "\<not> (\<exists>tag \<in> set (split_on CHR '' '' (normalize_tags c)). 2 \<le> count_char tag CHR ''='')"
    by (auto simp: find_None_iff)
  ultimately show ?thesis by simp
next
  case (Some tag)
  then have "tag \<in> set (split_on CHR '' '' (normalize_tags c))" "2 \<le> count_char tag CHR ''=''"
    by (auto simp: find_Some_iff)
  then have "\<exists>tag \<in> set (split_on CHR '' '' (normalize_tags c)). 2 \<le> count_char tag CHR ''=''"
    by (rule bexI [rotated])
  moreover from Some have "init_tags c = Inl (Exception (''Invalid tag name '' @ tag))"
    by (simp add: init_tags_def Let_def)
  ultimately show ?thesis by blast
qed

lemma init_tags_exn: "init_tags c = Inl ex \<Longrightarrow> \<exists>tag. ex = Exception (''Invalid tag name '' @ tag)"
  by (auto simp: init_tags_def Let_def split: option.splits)

text \<open>
  When the constructor of the base class returns and both conversions succeed,
  \<^verbatim>\<open>__init__\<close> raises the exception of the tag check exactly when a token of the
  normalized tag string, split at single spaces, holds two or more \<open>=\<close>.
\<close>

lemma construction_rejects_tag_iff:
  assumes "py_int (cfg_port c) = Inr p" and "py_int (cfg_timeout c) = Inr t"
  shows "(\<exists>tag. tsdb_init e None c = Inl (Exception (''Invalid tag name '' @ tag))) \<longleftrightarrow>
     (\<exists>tag \<in> set (split_on CHR '' '' (normalize_tags (cfg_tags c))).
        2 \<le> count_char tag CHR ''='')"
proof (cases "init_tags (cfg_tags c)")
  case (Inl ex)
  then obtain tag where "ex = Exception (''Invalid tag name '' @ tag)"
    using init_tags_exn by blast
  with Inl have l: "\<exists>tag. tsdb_init e None c = Inl (Exception (''Invalid tag name '' @ tag))"
    by (simp add: tsdb_init_def assms)
  from Inl have "\<exists>tag. init_tags (cfg_tags c) = Inl (Exception (''Invalid tag name '' @ tag))"
    using init_tags_exn by blast
  then have "\<exists>tag \<in> set (split_on CHR '' '' (normalize_tags (cfg_tags c))).
      2 \<le> count_char tag CHR ''=''"
    using init_tags_fails_iff [of "cfg_tags c"] by blast
  with l show ?thesis by blast
next
  case (Inr ts)
  then have "\<not> (\<exists>tag. init_tags (cfg_tags c) = Inl (Exception (''Invalid tag name '' @ tag)))"
    by simp
  then have r: "\<not> (\<exists>tag \<in> set (split_on CHR '' '' (normalize_tags (cfg_tags c))).
      2 \<le> count_char tag CHR ''='')"
    using init_tags_fails_iff [of "cfg_tags c"] by blast
  have "tsdb_init e None c \<noteq> Inl (Exception msg)" for msg
    using Inr connect_never_tag_exception [of e _ msg]
    by (auto simp: tsdb_init_def assms split: prod.splits sum.splits)
  with r show ?thesis by blast
qed

lemma separated_pairs_are_accepted:
  "init_tags (TagsList [''environment=test'', ''datacenter=north'']) =
     Inr '' environment=test datacenter=north'' \<and>
   init_tags (TagsString ''environment=test datacenter=north'') =
     Inr '' environment=test datacenter=north''"
  by (simp add: init_tags_def normalize_tags_def startswith_def count_char_def)

text \<open>
  Building a wrapper raises for one shape of path only: mattermost, \<^verbatim>\<open>userdetails\<close>
  and exactly three segments.
\<close>

lemma one_segment_returns:
  "\<exists>w. (if length (split_on CHR ''.'' (getMetricPath (wrap d))) = 2 then
          exn_bind (idx (split_on CHR ''.'' (getMetricPath (delegate (wrap d)))) 0) (\<lambda>seg.
            Inr (remove_segment seg (set_tag key seg (wrap d))))
        else Inr (wrap d)) = Inr w"
  by (simp add: idx_def)

lemma mattermost_returns_iff:
  "(\<exists>w. processMattermostMetric (wrap d) = Inr w) \<longleftrightarrow>
   \<not> (length (split_on CHR ''.'' (getMetricPath d)) = 3 \<and>
      split_on CHR ''.'' (getMetricPath d) ! 0 = ''userdetails'')"
  by (auto simp: processMattermostMetric_def mattermost_team_def mattermost_channel_def
        mattermost_user_def idx_def Let_def)

lemma mattermost_raises_IndexError:
  "processMattermostMetric (wrap d) = Inl ex \<Longrightarrow> ex = IndexError"
  by (auto simp: processMattermostMetric_def mattermost_team_def mattermost_channel_def
        mattermost_user_def idx_def Let_def split: if_splits)

lemma extraction_raises_only_for_short_userdetails:
  assumes "getCollectorPath d = Inr name"
  shows "(\<exists>w. MetricWrapper_init d = Inr w) \<longleftrightarrow>
     \<not> (name = ''mattermost'' \<and> length (split_on CHR ''.'' (getMetricPath d)) = 3 \<and>
        split_on CHR ''.'' (getMetricPath d) ! 0 = ''userdetails'')"
proof -
  have init: "MetricWrapper_init d = handler_for name (wrap d)"
    using assms by (simp add: MetricWrapper_init_def)
  consider (cpu) "name = ''cpu''" | (haproxy) "name = ''haproxy''"
    | (mattermost) "name = ''mattermost''" | (diskspace) "name = ''diskspace''"
    | (iostat) "name = ''iostat''" | (network) "name = ''network''"
    | (other) "name \<noteq> ''cpu''" "name \<noteq> ''haproxy''" "name \<noteq> ''mattermost''"
        "name \<noteq> ''diskspace''" "name \<noteq> ''iostat''" "name \<noteq> ''network''"
    by blast
  then show ?thesis
  proof cases
    case cpu
    then show ?thesis using cpu_returns [of d] by (simp add: init handler_for_cases)
  next
    case haproxy
    then show ?thesis using haproxy_returns [of d] by (simp add: init handler_for_cases)
  next
    case mattermost
    then show ?thesis using mattermost_returns_iff [of d] by (simp add: init handler_for_cases)
  next
    case diskspace
    then show ?thesis
      using one_segment_returns [of d "''mountpoint''"]
      by (simp add: init handler_for_cases processDiskspaceMetric_def)
  next
    case iostat
    then show ?thesis
      using one_segment_returns [of d "''device''"]
      by (simp add: init handler_for_cases processDiskusageMetric_def)
  next
    case network
    then show ?thesis
      using one_segment_returns [of d "''interface''"]
      by (simp add: init handler_for_cases processNetworkMetric_def)
  next
    case other
    then show ?thesis by (simp add: init handler_for_cases processDefaultMetric_def)
  qed
qed

section \<open>The claims\<close>

text \<open>
  Claim C1, as amended. When \<^verbatim>\<open>MetricWrapper.__init__\<close> returns a wrapper, a value
  of its tag set that occurs exactly once among the segments of the original path, and
  not as the last segment, is not a segment of the rewritten path.
\<close>

theorem rewritten_path_omits_tag_value:
  assumes "MetricWrapper_init d = Inr w"
    and "(k, v) \<in> set (getTags w)"
    and "count_list (split_on CHR ''.'' (path d)) v = 1"
    and "last (split_on CHR ''.'' (path d)) \<noteq> v"
  shows "v \<notin> set (split_on CHR ''.'' (path w))"
proof -
  from assms(1) obtain name where "handler_for name (wrap d) = Inr w"
    using MetricWrapper_init_handler by blast
  then obtain vs where "rewrote (wrap d) w vs"
    using handler_rewrote [of "wrap d" name w] by auto
  then show ?thesis
    using assms(2-4) rewritten_clean [of vs "path d" w k v]
    by (simp add: rewrote_def getTags_def)
qed

text \<open>The theorem at the metric \<^verbatim>\<open>servers.web01.cpu.cpu0.idle\<close>.\<close>

theorem rewritten_path_omits_tag_value_witness:
  "MetricWrapper_init (example_metric ''servers.web01.cpu.cpu0.idle'') =
     Inr ((wrap (example_metric ''servers.web01.cpu.cpu0.idle''))
            \<lparr>path := ''servers.web01.cpu.idle'', MetricWrapper.tags := [(''cpuId'', ''cpu0'')]\<rparr>) \<and>
   (''cpuId'', ''cpu0'') \<in> set (getTags ((wrap (example_metric ''servers.web01.cpu.cpu0.idle''))
            \<lparr>path := ''servers.web01.cpu.idle'', MetricWrapper.tags := [(''cpuId'', ''cpu0'')]\<rparr>)) \<and>
   count_list (split_on CHR ''.'' (path (example_metric ''servers.web01.cpu.cpu0.idle''))) ''cpu0'' = 1 \<and>
   last (split_on CHR ''.'' (path (example_metric ''servers.web01.cpu.cpu0.idle''))) \<noteq> ''cpu0'' \<and>
   ''cpu0'' \<notin> set (split_on CHR ''.'' ''servers.web01.cpu.idle'')"
proof -
  let ?d = "example_metric ''servers.web01.cpu.cpu0.idle''"
  let ?w = "(wrap ?d)\<lparr>path := ''servers.web01.cpu.idle'', MetricWrapper.tags := [(''cpuId'', ''cpu0'')]\<rparr>"
  have h1: "MetricWrapper_init ?d = Inr ?w"
    by (simp add: MetricWrapper_init_def wrap_def example_metric_def getCollectorPath_def
          handler_for_cases processCpuMetric_def getMetricPath_def remove_segment_def
          set_tag_def replace_def)
  have h2: "(''cpuId'', ''cpu0'') \<in> set (getTags ?w)"
    by (simp add: getTags_def)
  have h3: "count_list (split_on CHR ''.'' (path ?d)) ''cpu0'' = 1"
    by (simp add: example_metric_def)
  have h4: "last (split_on CHR ''.'' (path ?d)) \<noteq> ''cpu0''"
    by (simp add: example_metric_def)
  have "''cpu0'' \<notin> set (split_on CHR ''.'' (path ?w))"
    by (rule rewritten_path_omits_tag_value [OF h1 h2 h3 h4])
  then show ?thesis
    using h1 h2 h3 h4 by simp
qed

text \<open>
  Claim C1 as stated fails for the collector cpu and the metric path
  \<^verbatim>\<open>total.total\<close>: the pattern \<^verbatim>\<open>.total.\<close> occurs once in the path, the last
  segment has no dot after it, and the rewritten path still ends in the segment
  \<^verbatim>\<open>total\<close>, the value of the tag \<^verbatim>\<open>cpuId\<close>.
\<close>

theorem cpu_total_total_keeps_tag_value:
  "extraction (example_metric ''servers.web01.cpu.total.total'') =
     Inr (''servers.web01.cpu.total'', ''total'', [(''cpuId'', ''total'')], True) \<and>
   ''total'' \<in> set (split_on CHR ''.'' ''servers.web01.cpu.total'')"
  by (simp add: extraction_def MetricWrapper_init_def wrap_def example_metric_def
        getCollectorPath_def handler_for_cases processCpuMetric_def getMetricPath_def
        remove_segment_def set_tag_def replace_def getTags_def isAggregate_def)

text \<open>
  Claim C3. Building the wrapper of a metric yields the aggregate flag true exactly when
  the collector is cpu, the metric path has more than one segment and segment 0 is
  \<^verbatim>\<open>total\<close>, or the collector is haproxy, the metric path has exactly three segments
  and segment 1 is \<^verbatim>\<open>backend\<close>. For every other collector, and for a cpu or haproxy
  path that fails the test on the number of segments, no wrapper with a true flag comes
  out.
\<close>

theorem aggregate_iff:
  "(\<exists>w. MetricWrapper_init d = Inr w \<and> isAggregate w) \<longleftrightarrow>
     (getCollectorPath d = Inr ''cpu'' \<and>
        1 < length (split_on CHR ''.'' (getMetricPath d)) \<and>
        split_on CHR ''.'' (getMetricPath d) ! 0 = ''total'') \<or>
     (getCollectorPath d = Inr ''haproxy'' \<and>
        length (split_on CHR ''.'' (getMetricPath d)) = 3 \<and>
        split_on CHR ''.'' (getMetricPath d) ! 1 = ''backend'')"
proof (cases "getCollectorPath d")
  case (Inl ex)
  then show ?thesis by (simp add: MetricWrapper_init_def)
next
  case (Inr name)
  have init: "MetricWrapper_init d = handler_for name (wrap d)"
    using Inr by (simp add: MetricWrapper_init_def)
  show ?thesis
  proof
    assume "\<exists>w. MetricWrapper_init d = Inr w \<and> isAggregate w"
    then obtain w where "handler_for name (wrap d) = Inr w" "aggregate w"
      by (auto simp: init isAggregate_def)
    then show "(getCollectorPath d = Inr ''cpu'' \<and>
        1 < length (split_on CHR ''.'' (getMetricPath d)) \<and>
        split_on CHR ''.'' (getMetricPath d) ! 0 = ''total'') \<or>
     (getCollectorPath d = Inr ''haproxy'' \<and>
        length (split_on CHR ''.'' (getMetricPath d)) = 3 \<and>
        split_on CHR ''.'' (getMetricPath d) ! 1 = ''backend'')"
      using handler_aggregate [of name d w] Inr by simp
  next
    assume r: "(getCollectorPath d = Inr ''cpu'' \<and>
        1 < length (split_on CHR ''.'' (getMetricPath d)) \<and>
        split_on CHR ''.'' (getMetricPath d) ! 0 = ''total'') \<or>
     (getCollectorPath d = Inr ''haproxy'' \<and>
        length (split_on CHR ''.'' (getMetricPath d)) = 3 \<and>
        split_on CHR ''.'' (getMetricPath d) ! 1 = ''backend'')"
    then have n: "name = ''cpu'' \<or> name = ''haproxy''" using Inr by auto
    then obtain w where w: "handler_for name (wrap d) = Inr w"
      using cpu_returns [of d] haproxy_returns [of d] by (auto simp: handler_for_cases)
    then have "aggregate w"
      using handler_aggregate [of name d w] r Inr by simp
    with w show "\<exists>w. MetricWrapper_init d = Inr w \<and> isAggregate w"
      by (auto simp: init isAggregate_def)
  qed
qed

text \<open>
  Claim C2. The claim asks that tag extraction never raises. For the collector
  mattermost, segment 0 \<^verbatim>\<open>userdetails\<close> and exactly three segments, the test
  \<^verbatim>\<open>len(split) > 2\<close> lets the path in and \<^verbatim>\<open>split[3]\<close> raises IndexError.
\<close>

theorem mattermost_userdetails_three_segments_raises:
  "MetricWrapper_init (example_metric ''servers.web01.mattermost.userdetails.bob.dev'') =
     Inl IndexError"
  by (simp add: MetricWrapper_init_def wrap_def example_metric_def getCollectorPath_def
        handler_for_cases processMattermostMetric_def mattermost_team_def
        mattermost_channel_def mattermost_user_def getMetricPath_def)

text \<open>
  Claim C9. \<^verbatim>\<open>_close\<close> has no exception to raise, leaves the socket field unset from
  any state, and calling it twice, or any number of times in a row, gives the state
  that one call gives.
\<close>

theorem close_idempotent:
  "socket (tsdb_close h) = None \<and>
   tsdb_close (tsdb_close h) = tsdb_close h \<and>
   (tsdb_close ^^ Suc n) h = tsdb_close h"
proof -
  have twice: "tsdb_close (tsdb_close g) = tsdb_close g" for g
    by (simp add: tsdb_close_disconnected)
  have "(tsdb_close ^^ Suc n) h = tsdb_close h"
    by (induction n) (simp_all add: twice)
  then show ?thesis by (simp add: twice)
qed

text \<open>
  Claim C5. The claim asks that \<^verbatim>\<open>_send\<close> make three attempts and return without an
  exception whenever every attempt to connect fails and leaves the socket field unset.
  Where no socket can be created, \<^verbatim>\<open>socket.socket(...)\<close> raises inside \<^verbatim>\<open>_connect\<close>,
  outside its \<^verbatim>\<open>try\<close>; \<^verbatim>\<open>_send\<close> calls \<^verbatim>\<open>_connect\<close> without a \<^verbatim>\<open>try\<close> of its own,
  and the exception leaves \<^verbatim>\<open>_send\<close> at the first attempt, the socket field still
  unset.
\<close>

theorem send_raises_when_socket_creation_fails:
  "socket example_handler = None \<and>
   tsdb_send no_sockets ''put a 1 2'' example_handler =
     (Inl SocketError,
      example_handler\<lparr>log := [LogError ''TSDBHandler: Socket unavailable.''],
                       n_socket := 1\<rparr>) \<and>
   socket (snd (tsdb_send no_sockets ''put a 1 2'' example_handler)) = None"
  by (simp add: tsdb_send_def RETRY_def eval_nat_numeral tsdb_connect_def no_sockets_def
        example_handler_def log_error_def)

text \<open>
  Claim C8. The claim asks that \<^verbatim>\<open>_connect\<close> never raises, also when the socket
  cannot be created. \<^verbatim>\<open>socket.socket(...)\<close> stands outside the \<^verbatim>\<open>try\<close>, and the test
  after it reads the module \<^verbatim>\<open>socket\<close>, which is never \<^verbatim>\<open>None\<close>: the exception of a
  failed creation leaves \<^verbatim>\<open>_connect\<close>, and nothing is logged.
\<close>

theorem connect_raises_when_socket_creation_fails:
  "tsdb_connect no_sockets example_handler =
     (Inl SocketError, example_handler\<lparr>n_socket := 1\<rparr>)"
  by (simp add: tsdb_connect_def no_sockets_def example_handler_def)

text \<open>
  Claim C7, as amended. A metric of the collector cpu with the metric path
  \<^verbatim>\<open>total.idle\<close>, under any prefix segment and any host segment other than
  \<^verbatim>\<open>total\<close>: the wrapper has the tag set \<^verbatim>\<open>{cpuId: total}\<close>, the aggregate flag
  true, and the metric path \<^verbatim>\<open>idle\<close> after the rewrite.
\<close>

theorem cpu_total_idle:
  assumes "CHR ''.'' \<notin> set a" and "CHR ''.'' \<notin> set b" and "b \<noteq> ''total''"
    and "path d = a @ ''.'' @ b @ ''.cpu.total.idle''"
  shows "extraction d =
     Inr (a @ ''.'' @ b @ ''.cpu.idle'', ''idle'', [(''cpuId'', ''total'')], True)"
proof -
  have segs: "split_on CHR ''.'' (path d) = [a, b, ''cpu'', ''total'', ''idle'']"
    using assms(1,2) by (simp add: assms(4) split_on_append_free)
  have c: "getCollectorPath d = Inr ''cpu''"
    by (simp add: getCollectorPath_def segs)
  have m: "getMetricPath d = ''total.idle''"
    by (simp add: getMetricPath_def segs)
  have p: "replace (path d) (CHR ''.'' # ''total'' @ ''.'') ''.'' = a @ ''.'' @ b @ ''.cpu.idle''"
    using assms(3) by (subst replace_segments) (simp_all add: segs del_seg_def)
  have w: "MetricWrapper_init d =
     Inr ((wrap d)\<lparr>path := a @ ''.'' @ b @ ''.cpu.idle'',
                    MetricWrapper.tags := [(''cpuId'', ''total'')], aggregate := True\<rparr>)"
    using p by (simp add: MetricWrapper_init_def c m handler_for_cases processCpuMetric_def wrap_def getCollectorPath_def getMetricPath_def segs
          remove_segment_def set_tag_def)
  have "split_on CHR ''.'' (a @ ''.'' @ b @ ''.cpu.idle'') = [a, b, ''cpu'', ''idle'']"
    using assms(1,2) by (simp add: split_on_append_free)
  then show ?thesis
    by (simp add: extraction_def w getMetricPath_def getTags_def isAggregate_def)
qed

text \<open>The theorem for the path \<^verbatim>\<open>servers.web01.cpu.total.idle\<close>.\<close>

theorem cpu_total_idle_witness:
  "CHR ''.'' \<notin> set ''servers'' \<and> CHR ''.'' \<notin> set ''web01'' \<and> ''web01'' \<noteq> ''total'' \<and>
   path (example_metric ''servers.web01.cpu.total.idle'') = ''servers'' @ ''.'' @ ''web01'' @ ''.cpu.total.idle'' \<and>
   extraction (example_metric ''servers.web01.cpu.total.idle'') =
     Inr (''servers.web01.cpu.idle'', ''idle'', [(''cpuId'', ''total'')], True)"
proof -
  have a: "CHR ''.'' \<notin> set ''servers''" by simp
  have b: "CHR ''.'' \<notin> set ''web01''" by simp
  have c: "''web01'' \<noteq> ''total''" by simp
  have d: "path (example_metric ''servers.web01.cpu.total.idle'') =
             ''servers'' @ ''.'' @ ''web01'' @ ''.cpu.total.idle''"
    by (simp add: example_metric_def)
  show ?thesis
    using cpu_total_idle [OF a b c d] a b c d by simp
qed

text \<open>
  Claim C7 as stated fails for a host named \<^verbatim>\<open>total\<close>: the metric is of the collector
  cpu and its metric path is \<^verbatim>\<open>total.idle\<close>, the replacement of \<^verbatim>\<open>.total.\<close> works on
  the whole path and takes the host segment as well, and the metric path after the
  rewrite is empty.
\<close>

theorem cpu_total_idle_under_host_total:
  "getCollectorPath ((example_metric ''servers.total.cpu.total.idle'')\<lparr>Metric.host := Some ''total''\<rparr>) =
     Inr ''cpu'' \<and>
   getMetricPath ((example_metric ''servers.total.cpu.total.idle'')\<lparr>Metric.host := Some ''total''\<rparr>) =
     ''total.idle'' \<and>
   extraction ((example_metric ''servers.total.cpu.total.idle'')\<lparr>Metric.host := Some ''total''\<rparr>) =
     Inr (''servers.cpu.idle'', [], [(''cpuId'', ''total'')], True)"
  by (simp add: extraction_def MetricWrapper_init_def wrap_def example_metric_def
        getCollectorPath_def handler_for_cases processCpuMetric_def getMetricPath_def
        remove_segment_def set_tag_def replace_def getTags_def isAggregate_def)

text \<open>
  Claim C10. With \<^verbatim>\<open>cleanMetrics\<close> false, \<^verbatim>\<open>process\<close> hands the rendered line of
  every metric to \<^verbatim>\<open>_send\<close>: neither \<^verbatim>\<open>skipAggregates\<close> nor the aggregate class of
  the metric is consulted.
\<close>

theorem process_without_cleaning_always_sends:
  assumes "\<not> cleanMetrics h"
    and "render (metric_format h) m (TSDBHandler.tags h) = Inr line"
  shows "tsdb_process e m h =
     (case tsdb_send e (''put '' @ line @ [CHR 0x0A]) h of
        (Inl ex, h') \<Rightarrow> (Inl (Raised ex), h')
      | (Inr u, h') \<Rightarrow> (Inr (), h'))"
  using assms by (simp add: tsdb_process_def send_metric_rendered)

text \<open>
  The theorem for a handler with \<^verbatim>\<open>skipAggregates\<close> true and the cpu metric
  \<^verbatim>\<open>total.idle\<close>, which extraction classes as aggregate: the line is transmitted.
\<close>

theorem process_without_cleaning_always_sends_witness:
  "\<not> cleanMetrics (example_handler\<lparr>socket := Some 0, cleanMetrics := False\<rparr>) \<and>
   skipAggregates (example_handler\<lparr>socket := Some 0, cleanMetrics := False\<rparr>) \<and>
   extraction (example_metric ''servers.web01.cpu.total.idle'') =
     Inr (''servers.web01.cpu.idle'', ''idle'', [(''cpuId'', ''total'')], True) \<and>
   render (metric_format (example_handler\<lparr>socket := Some 0, cleanMetrics := False\<rparr>))
     (example_metric ''servers.web01.cpu.total.idle'')
     (TSDBHandler.tags (example_handler\<lparr>socket := Some 0, cleanMetrics := False\<rparr>)) =
     Inr ''cpu.total.idle 1234567 123 hostname=web01 env=prod'' \<and>
   sent (snd (tsdb_process network_up (example_metric ''servers.web01.cpu.total.idle'')
           (example_handler\<lparr>socket := Some 0, cleanMetrics := False\<rparr>))) =
     [''put cpu.total.idle 1234567 123 hostname=web01 env=prod'' @ [CHR 0x0A]]"
proof -
  let ?h = "example_handler\<lparr>socket := Some 0, cleanMetrics := False\<rparr>"
  let ?m = "example_metric ''servers.web01.cpu.total.idle''"
  have a: "\<not> cleanMetrics ?h" by simp
  have s: "skipAggregates ?h" by (simp add: example_handler_def)
  have x: "extraction ?m = Inr (''servers.web01.cpu.idle'', ''idle'', [(''cpuId'', ''total'')], True)"
    by (simp add: extraction_def MetricWrapper_init_def wrap_def example_metric_def
        getCollectorPath_def handler_for_cases processCpuMetric_def getMetricPath_def
        remove_segment_def set_tag_def replace_def getTags_def isAggregate_def)
  have r: "render (metric_format ?h) ?m (TSDBHandler.tags ?h) =
             Inr ''cpu.total.idle 1234567 123 hostname=web01 env=prod''"
    by (simp add: render_def format_kwargs_def example_handler_def example_metric_def
          getCollectorPath_def getMetricPath_def str_host_def str_int_def digit_def
          plain_field_def positional_field_def)
  have t: "tsdb_send network_up (''put '' @ ''cpu.total.idle 1234567 123 hostname=web01 env=prod'' @ [CHR 0x0A]) ?h =
           (Inr (), ?h\<lparr>n_sendall := 1, sent := [''put cpu.total.idle 1234567 123 hostname=web01 env=prod'' @ [CHR 0x0A]]\<rparr>)"
    by (simp add: tsdb_send_def RETRY_def eval_nat_numeral network_up_def example_handler_def)
  show ?thesis
    using process_without_cleaning_always_sends [OF a r, of network_up] a s x r t by simp
qed

text \<open>
  Claim C6, as amended. With cleaning on and the metric not dropped as an aggregate,
  \<^verbatim>\<open>process\<close> renders its template, whatever it is, with \<open>Path\<close> bound to the path of
  the wrapper, that is the path after the rewrite of the collector's rule, and with
  \<open>Metric\<close> bound to the metric path of that same path; the line rendered goes to
  \<^verbatim>\<open>_send\<close>.
\<close>

theorem path_placeholder_is_rewritten_path:
  assumes "cleanMetrics h" and "MetricWrapper_init m = Inr w"
    and "\<not> (skipAggregates h \<and> isAggregate w)"
  shows "tsdb_process e m h =
     (case getCollectorPath w of
        Inl ex \<Rightarrow> (Inl (Raised ex), h)
      | Inr c \<Rightarrow>
          (case format_from (metric_format h)
                  [(''Collector'', c),
                   (''Path'', path w),
                   (''Metric'', getMetricPath w),
                   (''host'', str_host (Metric.host w)),
                   (''timestamp'', str_int (timestamp w)),
                   (''value'', str_int (value w)),
                   (''tags'', tags_suffix (TSDBHandler.tags h) (getTags w))] of
             Inl err \<Rightarrow> (Inl err, h)
           | Inr line \<Rightarrow>
               (case tsdb_send e (''put '' @ line @ [CHR 0x0A]) h of
                  (Inl ex, h') \<Rightarrow> (Inl (Raised ex), h')
                | (Inr u, h') \<Rightarrow> (Inr (), h'))))"
proof -
  have "tsdb_process e m h =
          send_metric e w (tags_suffix (TSDBHandler.tags h) (getTags w)) h"
    using assms by (auto simp: tsdb_process_def)
  then show ?thesis
    by (simp add: send_metric_def render_def format_kwargs_def exn_bind_def
          split: sum.splits)
qed

text \<open>
  The theorem for the cpu metric \<^verbatim>\<open>cpu0.idle\<close> and the template \<open>{Path} {Metric}\<close>:
  the line sent holds the rewritten path and its metric path.
\<close>

theorem path_placeholder_is_rewritten_path_witness:
  "cleanMetrics (example_handler\<lparr>socket := Some 0, metric_format := ''{Path} {Metric}''\<rparr>) \<and>
   MetricWrapper_init (example_metric ''servers.web01.cpu.cpu0.idle'') =
     Inr ((wrap (example_metric ''servers.web01.cpu.cpu0.idle''))
            \<lparr>path := ''servers.web01.cpu.idle'', MetricWrapper.tags := [(''cpuId'', ''cpu0'')]\<rparr>) \<and>
   \<not> (skipAggregates (example_handler\<lparr>socket := Some 0, metric_format := ''{Path} {Metric}''\<rparr>) \<and>
      isAggregate ((wrap (example_metric ''servers.web01.cpu.cpu0.idle''))
            \<lparr>path := ''servers.web01.cpu.idle'', MetricWrapper.tags := [(''cpuId'', ''cpu0'')]\<rparr>)) \<and>
   tsdb_process network_up (example_metric ''servers.web01.cpu.cpu0.idle'')
       (example_handler\<lparr>socket := Some 0, metric_format := ''{Path} {Metric}''\<rparr>) =
     (Inr (), example_handler\<lparr>socket := Some 0, metric_format := ''{Path} {Metric}'',
                n_sendall := 1, sent := [''put servers.web01.cpu.idle idle'' @ [CHR 0x0A]]\<rparr>)"
proof -
  let ?h = "example_handler\<lparr>socket := Some 0, metric_format := ''{Path} {Metric}''\<rparr>"
  let ?m = "example_metric ''servers.web01.cpu.cpu0.idle''"
  let ?w = "(wrap ?m)\<lparr>path := ''servers.web01.cpu.idle'', MetricWrapper.tags := [(''cpuId'', ''cpu0'')]\<rparr>"
  have a: "cleanMetrics ?h" by (simp add: example_handler_def)
  have b: "MetricWrapper_init ?m = Inr ?w"
    by (simp add: MetricWrapper_init_def wrap_def example_metric_def getCollectorPath_def
          handler_for_cases processCpuMetric_def getMetricPath_def remove_segment_def
          set_tag_def replace_def)
  have c: "\<not> (skipAggregates ?h \<and> isAggregate ?w)"
    by (simp add: isAggregate_def wrap_def)
  have d: "getCollectorPath ?w = Inr ''cpu''"
    by (simp add: getCollectorPath_def)
  have f: "format_from (metric_format ?h)
             [(''Collector'', ''cpu''),
              (''Path'', path ?w),
              (''Metric'', getMetricPath ?w),
              (''host'', str_host (Metric.host ?w)),
              (''timestamp'', str_int (timestamp ?w)),
              (''value'', str_int (value ?w)),
              (''tags'', tags_suffix (TSDBHandler.tags ?h) (getTags ?w))] =
           Inr ''servers.web01.cpu.idle idle''"
    by (simp add: Let_def plain_field_def positional_field_def getMetricPath_def)
  have t: "tsdb_send network_up (''put '' @ ''servers.web01.cpu.idle idle'' @ [CHR 0x0A]) ?h =
           (Inr (), ?h\<lparr>n_sendall := 1, sent := [''put servers.web01.cpu.idle idle'' @ [CHR 0x0A]]\<rparr>)"
    by (simp add: tsdb_send_def RETRY_def eval_nat_numeral network_up_def example_handler_def)
  have "tsdb_process network_up ?m ?h =
          (Inr (), ?h\<lparr>n_sendall := 1, sent := [''put servers.web01.cpu.idle idle'' @ [CHR 0x0A]]\<rparr>)"
    using path_placeholder_is_rewritten_path [OF a b c, of network_up]
    by (simp only: d f t sum.case prod.case)
  then show ?thesis
    using a b c by simp
qed

text \<open>
  Claim C6 as stated fails: for the cpu metric \<^verbatim>\<open>servers.web01.cpu.cpu0.idle\<close> and the
  format \<open>{Path}\<close>, the line sent holds the rewritten path, without the segment
  \<^verbatim>\<open>cpu0\<close>, not the path as received.
\<close>

theorem path_placeholder_differs_from_original_path:
  "cleanMetrics (example_handler\<lparr>socket := Some 0, skipAggregates := False, metric_format := ''{Path}''\<rparr>) \<and>
   path (example_metric ''servers.web01.cpu.cpu0.idle'') = ''servers.web01.cpu.cpu0.idle'' \<and>
   sent (snd (tsdb_process network_up (example_metric ''servers.web01.cpu.cpu0.idle'')
           (example_handler\<lparr>socket := Some 0, skipAggregates := False, metric_format := ''{Path}''\<rparr>))) =
     [''put servers.web01.cpu.idle'' @ [CHR 0x0A]]"
  by (simp add: tsdb_process_def example_handler_def MetricWrapper_init_def wrap_def
        example_metric_def getCollectorPath_def handler_for_cases processCpuMetric_def
        getMetricPath_def remove_segment_def set_tag_def replace_def isAggregate_def
        send_metric_def render_def format_kwargs_def plain_field_def positional_field_def
        tsdb_send_def RETRY_def eval_nat_numeral network_up_def)


end
